theory Spec2Isabelle
  imports Main "HOL-Library.Sublist" "HOL-Library.AList"
begin

section \<open>Python values, truthiness and exceptions\<close>

text \<open>
  The configuration maps and webhook payloads of the engine are JSON-like Python
  dictionaries. Their values are modelled by \<open>pyval\<close>; \<open>truthy\<close> is Python's truth
  test (\<open>if v:\<close>), and \<open>dict_get\<close> is \<open>d.get(k)\<close>, which yields \<open>None\<close> for a
  missing key.
\<close>

datatype pyval =
    PNone
  | PBool bool
  | PInt int
  | PStr string
  | PList "pyval list"
  | PDict "(string \<times> pyval) list"

fun truthy :: "pyval \<Rightarrow> bool" where
  "truthy PNone = False"
| "truthy (PBool b) = b"
| "truthy (PInt i) = (i \<noteq> 0)"
| "truthy (PStr s) = (s \<noteq> [])"
| "truthy (PList xs) = (xs \<noteq> [])"
| "truthy (PDict kvs) = (kvs \<noteq> [])"

type_synonym pydict = "string \<rightharpoonup> pyval"

definition dict_get :: "pydict \<Rightarrow> string \<Rightarrow> pyval" where
  "dict_get d k = (case d k of None \<Rightarrow> PNone | Some v \<Rightarrow> v)"

definition dict_get_default :: "pydict \<Rightarrow> string \<Rightarrow> pyval \<Rightarrow> pyval" where
  "dict_get_default d k dflt = (case d k of None \<Rightarrow> dflt | Some v \<Rightarrow> v)"

text \<open>The exceptions the modelled code raises or lets through, with a short message.\<close>

datatype exc =
    ValueError string
  | AttributeError string
  | TypeError string
  | KeyError string
  | UnboundLocalError string
  | ExternalError string
  | ImportError string

section \<open>Seller identifiers of a webhook (generic\_service.py)\<close>

definition extract_sellers_ids :: "pydict \<Rightarrow> pyval" where
  "extract_sellers_ids webhook =
     (let seller_an = dict_get webhook ''An'';
          seller_chain = dict_get webhook ''SellerChain''
      in if truthy seller_chain \<and> truthy seller_an then seller_chain
         else if truthy seller_an \<and> \<not> truthy seller_chain then seller_an
         else PNone)"

text \<open>
  \<open>ProductUpdateService._get_sellers_ids\<close>. The webhook attribute is optional in the
  constructor; \<open>None.get\<close> raises. The call \<open>service.list_all_actives_sellers(domain)\<close>
  goes to the e-commerce provider: its outcome is the parameter \<open>all_active_sellers\<close>.
\<close>

definition get_sellers_ids :: "exc + pyval list \<Rightarrow> pydict option \<Rightarrow> exc + pyval list" where
  "get_sellers_ids all_active_sellers webhook =
     (case webhook of
        None \<Rightarrow> Inl (AttributeError ''NoneType object has no attribute get'')
      | Some w \<Rightarrow>
          (let seller_id = extract_sellers_ids w
           in if truthy seller_id then Inr [seller_id] else all_active_sellers))"

section \<open>SKU extraction (wpp\_products/utils.py)\<close>

text \<open>
  Product identifiers are Python strings; a \<open>char\<close> stands for one code point below 256.
  In that range \<open>str.isdigit\<close> accepts the ten decimal digits and the three superscript
  digits U+00B2, U+00B3 and U+00B9, while \<open>int\<close> only converts decimal digits and
  raises \<open>ValueError\<close> on a superscript.
\<close>

definition split_first :: "char \<Rightarrow> string \<Rightarrow> string" where
  \<comment> \<open>\<open>s.split(sep)[0]\<close>: the part before the first separator, the whole string without one\<close>
  "split_first sep s = takeWhile (\<lambda>c. c \<noteq> sep) s"

definition is_decimal_char :: "char \<Rightarrow> bool" where
  "is_decimal_char c = (48 \<le> (of_char c :: nat) \<and> (of_char c :: nat) \<le> 57)"

definition is_superscript_digit :: "char \<Rightarrow> bool" where
  "is_superscript_digit c =
     ((of_char c :: nat) = 178 \<or> (of_char c :: nat) = 179 \<or> (of_char c :: nat) = 185)"

definition py_isdigit :: "string \<Rightarrow> bool" where
  "py_isdigit s = (s \<noteq> [] \<and> list_all (\<lambda>c. is_decimal_char c \<or> is_superscript_digit c) s)"

definition digit_val :: "char \<Rightarrow> int" where
  "digit_val c = int (of_char c) - 48"

definition dec_value :: "string \<Rightarrow> int" where
  "dec_value s = foldl (\<lambda>acc c. 10 * acc + digit_val c) 0 s"

definition py_int_of_digits :: "string \<Rightarrow> exc + int" where
  \<comment> \<open>\<open>int(s)\<close> on a string that passed \<open>isdigit\<close>\<close>
  "py_int_of_digits s =
     (if list_all is_decimal_char s then Inr (dec_value s)
      else Inl (ValueError ''invalid literal for int() with base 10''))"

definition extract_sku_id :: "string \<Rightarrow> exc + int" where
  "extract_sku_id product_id =
     (let sku_part = split_first (CHR ''#'') product_id
      in if py_isdigit sku_part then py_int_of_digits sku_part
         else Inl (ValueError ''Invalid SKU ID, error: not a number''))"


section \<open>Upload rows and the feed encoder (wpp\_products/utils.py)\<close>

text \<open>
  One \<open>UploadProduct\<close> row: primary key, remote product identifier, catalog, status,
  last-modified time stamp and the comma-separated product line kept in \<open>data\<close>.
\<close>

datatype status = Pending | Processing | Success | Error

record upload_product =
  up_id :: nat
  facebook_product_id :: string
  catalog_ref :: nat
  status :: status
  modified_on :: nat
  data :: string

text \<open>\<open>ProductUploadManager.convert_to_csv\<close> and \<open>escape_quotes\<close>, on text (before the final UTF-8 encoding).\<close>

definition header :: string where
  "header = ''id,title,description,availability,status,condition,price,link,image_link,brand,sale_price''"

definition py_replace_char :: "char \<Rightarrow> string \<Rightarrow> string \<Rightarrow> string" where
  "py_replace_char old new s = concat (map (\<lambda>c. if c = old then new else [c]) s)"

definition escape_quotes :: "string \<Rightarrow> string" where
  "escape_quotes text = py_replace_char (CHR 0x27) '' '' (py_replace_char (CHR 0x22) [] text)"

fun py_join :: "string \<Rightarrow> string list \<Rightarrow> string" where
  "py_join sep [] = []"
| "py_join sep [x] = x"
| "py_join sep (x # y # ys) = x @ sep @ py_join sep (y # ys)"

definition csv_lines :: "upload_product list \<Rightarrow> bool \<Rightarrow> string list" where
  "csv_lines products include_header =
     (if include_header then [header] else []) @ map (\<lambda>product. escape_quotes (data product)) products"

definition convert_to_csv :: "upload_product list \<Rightarrow> bool \<Rightarrow> string" where
  "convert_to_csv products include_header = py_join [CHR 0x0A] (csv_lines products include_header)"

text \<open>The number of positions of a text at which a pattern occurs.\<close>

fun occurrences :: "'a list \<Rightarrow> 'a list \<Rightarrow> nat" where
  "occurrences pat [] = (if pat = [] then 1 else 0)"
| "occurrences pat (c # cs) = (if prefix pat (c # cs) then 1 else 0) + occurrences pat cs"

text \<open>A row whose data holds a double and a single quote.\<close>

definition shoe :: upload_product where
  "shoe = \<lparr>up_id = 1, facebook_product_id = ''55#7'', catalog_ref = 1, status = Processing,
           modified_on = 0, data = [CHR ''5'', CHR 0x22, CHR ''a'', CHR 0x27, CHR ''b'']\<rparr>"

text \<open>
  What the format asks of a field value, in the spec's words: double quotes stripped,
  single quotes replaced with a space, everything else kept.
\<close>

definition quotes_removed :: "string \<Rightarrow> string" where
  "quotes_removed text =
     map (\<lambda>c. if c = CHR 0x27 then CHR 0x20 else c) (filter (\<lambda>c. c \<noteq> CHR 0x22) text)"

text \<open>A row whose data is the header text itself.\<close>

definition header_row :: upload_product where
  "header_row = \<lparr>up_id = 2, facebook_product_id = ''56#7'', catalog_ref = 1, status = Processing,
                 modified_on = 0, data = header\<rparr>"

section \<open>The upload-row store and the batch fetcher (wpp\_products/utils.py)\<close>

text \<open>
  The \<open>UploadProduct\<close> table is a list of rows. \<open>update_status P new\<close> is the bulk
  update \<open>UploadProduct.objects.filter(P).update(status=new)\<close>, which rewrites the
  status column only. \<open>pending_query\<close> is the sliced query of \<open>__next__\<close>:
  rows of the catalog with status pending, ordered by \<open>modified_on\<close>, the first
  \<open>batch_size\<close> of them (the order among equal time stamps is the database's; the
  model keeps the table order).
\<close>

type_synonym store = "upload_product list"

definition update_status :: "(upload_product \<Rightarrow> bool) \<Rightarrow> status \<Rightarrow> store \<Rightarrow> store" where
  "update_status P new rows = map (\<lambda>r. if P r then r\<lparr>status := new\<rparr> else r) rows"

definition is_pending :: "nat \<Rightarrow> upload_product \<Rightarrow> bool" where
  "is_pending catalog r = (catalog_ref r = catalog \<and> status r = Pending)"

definition pending_query :: "nat \<Rightarrow> nat \<Rightarrow> store \<Rightarrow> upload_product list" where
  "pending_query catalog batch_size rows =
     take batch_size (sort_key modified_on (filter (is_pending catalog) rows))"

definition mark_products_as_sent :: "string list \<Rightarrow> store \<Rightarrow> store" where
  "mark_products_as_sent product_ids rows =
     update_status (\<lambda>r. facebook_product_id r \<in> set product_ids \<and> status r = Processing)
       Success rows"

definition mark_products_as_error :: "string list \<Rightarrow> store \<Rightarrow> store" where
  "mark_products_as_error product_ids rows =
     update_status (\<lambda>r. facebook_product_id r \<in> set product_ids \<and> status r = Processing)
       Error rows"

text \<open>
  The update of \<open>__next__\<close>:
  \<open>UploadProduct.objects.filter(id__in=product_ids).update(status="processing")\<close>.
\<close>

definition claim_batch :: "nat list \<Rightarrow> store \<Rightarrow> store" where
  "claim_batch product_ids rows = update_status (\<lambda>r. up_id r \<in> set product_ids) Processing rows"

text \<open>
  \<open>ProductBatchFetcher.__next__\<close>, run without another writer in between: \<open>None\<close> is
  \<open>StopIteration\<close>; otherwise the rows re-read by primary key after the update, their
  remote identifiers, and the new table.
\<close>

definition fetcher_next ::
  "nat \<Rightarrow> nat \<Rightarrow> store \<Rightarrow> (upload_product list \<times> string list \<times> store) option" where
  "fetcher_next catalog batch_size rows =
     (let products = pending_query catalog batch_size rows
      in if products = [] then None
         else
           let product_ids = map up_id products;
               rows' = claim_batch product_ids rows;
               products' = filter (\<lambda>r. up_id r \<in> set product_ids) rows';
               products_ids = map facebook_product_id products'
           in Some (products', products_ids, rows'))"

text \<open>The number of pending rows of a catalog: the measure of every loop over batches.\<close>

definition pending_count :: "nat \<Rightarrow> store \<Rightarrow> nat" where
  "pending_count catalog rows = length (filter (is_pending catalog) rows)"

lemma filter_map_le:
  "\<forall>x \<in> set xs. Q (f x) \<longrightarrow> P x \<Longrightarrow> length (filter Q (map f xs)) \<le> length (filter P xs)"
  by (induction xs) auto

lemma filter_map_less:
  "\<forall>x \<in> set xs. Q (f x) \<longrightarrow> P x \<Longrightarrow> \<exists>x \<in> set xs. P x \<and> \<not> Q (f x)
   \<Longrightarrow> length (filter Q (map f xs)) < length (filter P xs)"
proof (induction xs)
  case Nil
  then show ?case by simp
next
  case (Cons x xs)
  have le: "length (filter Q (map f xs)) \<le> length (filter P xs)"
    using Cons.prems(1) by (intro filter_map_le) simp
  show ?case
  proof (cases "P x \<and> \<not> Q (f x)")
    case True
    with le show ?thesis by simp
  next
    case False
    with Cons.prems have "\<exists>x \<in> set xs. P x \<and> \<not> Q (f x)" by auto
    with Cons have "length (filter Q (map f xs)) < length (filter P xs)" by simp
    with Cons.prems(1) show ?thesis by auto
  qed
qed

lemma set_pending_query:
  "set (pending_query c n rows) \<subseteq> {r \<in> set rows. is_pending c r}"
proof -
  have "set (pending_query c n rows) \<subseteq> set (sort_key modified_on (filter (is_pending c) rows))"
    unfolding pending_query_def by (rule set_take_subset)
  then show ?thesis by auto
qed

lemma fetcher_next_decreases:
  assumes "fetcher_next c n rows = Some (ps, ids, rows')"
  shows "pending_count c rows' < pending_count c rows"
proof -
  let ?sel = "pending_query c n rows"
  let ?f = "\<lambda>r. if up_id r \<in> set (map up_id ?sel) then r\<lparr>status := Processing\<rparr> else r"
  from assms have ne: "?sel \<noteq> []" and rows': "rows' = map ?f rows"
    by (auto simp: fetcher_next_def claim_batch_def Let_def update_status_def split: if_splits)
  from ne obtain r where r: "r \<in> set ?sel" by (cases ?sel) auto
  with set_pending_query have "r \<in> set rows" "is_pending c r" by blast+
  moreover from r have "\<not> is_pending c (?f r)" by (simp add: is_pending_def)
  ultimately have ex: "\<exists>x \<in> set rows. is_pending c x \<and> \<not> is_pending c (?f x)" by blast
  have all: "\<forall>x \<in> set rows. is_pending c (?f x) \<longrightarrow> is_pending c x"
    by (simp add: is_pending_def)
  have "length (filter (is_pending c) (map ?f rows)) < length (filter (is_pending c) rows)"
    using all ex by (rule filter_map_less [where Q = "is_pending c" and P = "is_pending c" and f = ?f])
  then show ?thesis
    by (simp add: pending_count_def rows')
qed

lemma filter_pending_update_status:
  "\<forall>r. P r \<longrightarrow> status r \<noteq> Pending \<Longrightarrow> new \<noteq> Pending
   \<Longrightarrow> filter (is_pending c) (update_status P new rows) = filter (is_pending c) rows"
  by (induction rows) (auto simp: update_status_def is_pending_def)

lemma filter_pending_mark_sent:
  "filter (is_pending c) (mark_products_as_sent ids rows) = filter (is_pending c) rows"
  unfolding mark_products_as_sent_def by (rule filter_pending_update_status) auto

lemma filter_pending_mark_error:
  "filter (is_pending c) (mark_products_as_error ids rows) = filter (is_pending c) rows"
  unfolding mark_products_as_error_def by (rule filter_pending_update_status) auto

lemma pending_count_mark [simp]:
  "pending_count c (mark_products_as_sent ids rows) = pending_count c rows"
  "pending_count c (mark_products_as_error ids rows) = pending_count c rows"
  by (simp_all add: pending_count_def filter_pending_mark_sent filter_pending_mark_error)

text \<open>
  The batches that the loop of \<open>process_and_upload\<close> draws from the fetcher in one pass:
  after batch \<open>k\<close> its rows are marked sent or error (\<open>sent k\<close> tells which) before
  the next call of \<open>__next__\<close>.
\<close>

function fetch_pass ::
  "(nat \<Rightarrow> bool) \<Rightarrow> nat \<Rightarrow> nat \<Rightarrow> nat \<Rightarrow> store \<Rightarrow> (upload_product list \<times> string list) list" where
  "fetch_pass sent catalog batch_size k rows =
     (case fetcher_next catalog batch_size rows of
        None \<Rightarrow> []
      | Some (products, products_ids, rows') \<Rightarrow>
          (products, products_ids)
          # fetch_pass sent catalog batch_size (Suc k)
              (if sent k then mark_products_as_sent products_ids rows'
               else mark_products_as_error products_ids rows'))"
  by pat_completeness auto
termination
  by (relation "measure (\<lambda>(sent, c, n, k, rows). pending_count c rows)")
     (auto dest: fetcher_next_decreases)

declare fetch_pass.simps [simp del]

definition pass_ids :: "(upload_product list \<times> string list) list \<Rightarrow> nat list" where
  "pass_ids batches = concat (map (\<lambda>(products, products_ids). map up_id products) batches)"

text \<open>Two pending rows of catalog 7.\<close>

definition p1 :: upload_product where
  "p1 = \<lparr>up_id = 1, facebook_product_id = ''p1'', catalog_ref = 7, status = Pending,
          modified_on = 10, data = ''p1,Shirt''\<rparr>"

definition p2 :: upload_product where
  "p2 = \<lparr>up_id = 2, facebook_product_id = ''p2'', catalog_ref = 7, status = Pending,
          modified_on = 20, data = ''p2,Hat''\<rparr>"

text \<open>
  The same statements of \<open>__next__\<close> when other writers change the table between
  the read of the pending primary keys and the update: \<open>other\<close> is their effect.
\<close>

definition fetcher_next_interleaved ::
  "(store \<Rightarrow> store) \<Rightarrow> nat \<Rightarrow> nat \<Rightarrow> store
     \<Rightarrow> (upload_product list \<times> string list \<times> store) option" where
  "fetcher_next_interleaved other catalog batch_size rows =
     (let products = pending_query catalog batch_size rows
      in if products = [] then None
         else
           let product_ids = map up_id products;
               rows' = claim_batch product_ids (other rows);
               products' = filter (\<lambda>r. up_id r \<in> set product_ids) rows';
               products_ids = map facebook_product_id products'
           in Some (products', products_ids, rows'))"

text \<open>Another worker that claims row 1 and marks it sent.\<close>

definition other_worker_sends_p1 :: "store \<Rightarrow> store" where
  "other_worker_sends_p1 rows =
     mark_products_as_sent [''p1''] (claim_batch [1] rows)"

section \<open>The upload loop (ProductUploader.process\_and\_upload)\<close>

text \<open>
  What the loop cannot decide by itself comes from the environment, per batch number:
  whether the call of \<open>__next__\<close> raises before it changes the table (the database is
  unreachable), what \<open>send_to_meta\<close> returns for the encoded batch (it catches its own
  failures and returns a boolean), and whether renewing the lock raises. The state is
  the table and the \<open>ProductUploadLog\<close> rows (their SKU ids); the catalog is taken to
  be linked to its e-commerce app, which the log message of the handler reads.
\<close>

record upload_env =
  fetch_fault :: "nat \<Rightarrow> exc option"
  send_to_meta :: "nat \<Rightarrow> string \<Rightarrow> bool"
  expire_fault :: "nat \<Rightarrow> exc option"

text \<open>\<open>log_sent_products\<close>: one log row per identifier, until an identifier has no numeric SKU.\<close>

fun log_sent_products :: "string list \<Rightarrow> int list \<Rightarrow> int list \<times> exc option" where
  "log_sent_products [] logs = (logs, None)"
| "log_sent_products (product_id # product_ids) logs =
     (case extract_sku_id product_id of
        Inl e \<Rightarrow> (logs, Some e)
      | Inr sku_id \<Rightarrow> log_sent_products product_ids (logs @ [sku_id]))"

text \<open>The body of the loop for batch \<open>k\<close>: the new state and the exception that escapes it, if any.\<close>

definition process_batch ::
  "upload_env \<Rightarrow> nat \<Rightarrow> upload_product list \<Rightarrow> string list \<Rightarrow> store \<times> int list
     \<Rightarrow> (store \<times> int list) \<times> exc option" where
  "process_batch env k products products_ids st =
     (let csv_content = convert_to_csv products True
      in if send_to_meta env k csv_content then
           (let rows' = mark_products_as_sent products_ids (fst st);
                (logs', raised) = log_sent_products products_ids (snd st)
            in case raised of
                 Some e \<Rightarrow> ((rows', logs'), Some e)
               | None \<Rightarrow> ((rows', logs'), expire_fault env k))
         else
           ((mark_products_as_error products_ids (fst st), snd st), expire_fault env k))"

lemma pending_count_process_batch:
  "pending_count c (fst (fst (process_batch env k products ids (rows, logs)))) = pending_count c rows"
  by (simp add: process_batch_def Let_def split: prod.splits option.splits)

text \<open>
  The \<open>for\<close> loop inside the \<open>try\<close>. \<open>bound\<close> is the local variable \<open>products_ids\<close>:
  \<open>None\<close> while it is unbound. The result is the state, the variable, and the exception
  that left the loop.
\<close>

lemma process_batch_pending:
  "(st', r) = process_batch env k products ids (rows, logs)
   \<Longrightarrow> \<forall>c. pending_count c (fst st') = pending_count c rows"
  using pending_count_process_batch [of _ env k products ids rows logs]
  by (cases "process_batch env k products ids (rows, logs)") auto

function upload_loop ::
  "upload_env \<Rightarrow> nat \<Rightarrow> nat \<Rightarrow> nat \<Rightarrow> string list option \<Rightarrow> store \<times> int list
     \<Rightarrow> (store \<times> int list) \<times> string list option \<times> exc option" where
  "upload_loop env catalog batch_size k bound st =
     (case fetch_fault env k of
        Some e \<Rightarrow> (st, bound, Some e)
      | None \<Rightarrow>
          (case fetcher_next catalog batch_size (fst st) of
             None \<Rightarrow> (st, bound, None)
           | Some (products, products_ids, rows') \<Rightarrow>
               (case process_batch env k products products_ids (rows', snd st) of
                  (st', Some e) \<Rightarrow> (st', Some products_ids, Some e)
                | (st', None) \<Rightarrow>
                    upload_loop env catalog batch_size (Suc k) (Some products_ids) st')))"
  by pat_completeness auto
termination
  by (relation "measure (\<lambda>(env, c, n, k, bound, st). pending_count c (fst st))")
     (auto dest!: fetcher_next_decreases process_batch_pending)

declare upload_loop.simps [simp del]

text \<open>
  \<open>process_and_upload\<close>: the \<open>except Exception\<close> handler logs and calls
  \<open>mark_products_as_error(products_ids)\<close>; reading the unbound variable raises.
\<close>

definition process_and_upload ::
  "upload_env \<Rightarrow> nat \<Rightarrow> nat \<Rightarrow> store \<times> int list \<Rightarrow> (store \<times> int list) \<times> exc option" where
  "process_and_upload env catalog batch_size st =
     (case upload_loop env catalog batch_size 0 None st of
        (st', bound, None) \<Rightarrow> (st', None)
      | (st', bound, Some e) \<Rightarrow>
          (case bound of
             None \<Rightarrow> (st', Some (UnboundLocalError ''products_ids''))
           | Some products_ids \<Rightarrow> ((mark_products_as_error products_ids (fst st'), snd st'), None)))"

text \<open>An environment whose first fetch fails.\<close>

definition db_down :: "nat \<Rightarrow> exc option" where
  "db_down k = (if k = 0 then Some (ExternalError ''database unavailable'') else None)"

definition no_fault :: "nat \<Rightarrow> exc option" where
  "no_fault k = None"

definition accept_all :: "nat \<Rightarrow> string \<Rightarrow> bool" where
  "accept_all k csv_content = True"

definition first_fetch_fails :: upload_env where
  "first_fetch_fails = \<lparr>fetch_fault = db_down, send_to_meta = accept_all, expire_fault = no_fault\<rparr>"

section \<open>Admission of synchronisation requests (services/vtex/generic\_service.py)\<close>

text \<open>
  Apps, catalogs and feeds are database rows; the database also keeps the list of
  the writes made to it (\<open>save\<close> and \<open>delete\<close> calls), so that "nothing is written"
  can be told apart from "the same value is written". An app's configuration is a
  Python dictionary, kept as an association list; \<open>config_get\<close> is \<open>app.config.get\<close>
  with a default. A failing database connection or task queue is not modelled: apart
  from the checks written out below, lookups and writes succeed.
\<close>

type_synonym pyconfig = "(string \<times> pyval) list"

record app =
  app_id :: "nat option"
  app_uuid :: string
  app_code :: string
  modified_by :: "string option"
  flow_object_uuid :: "string option"
  config :: pyconfig

record catalog =
  cat_uuid :: string
  cat_facebook_catalog_id :: string
  cat_name :: string
  cat_category :: string
  cat_app :: string
  cat_vtex_app :: "string option"
  cat_modified_by :: string

record product_feed =
  feed_uuid :: string
  facebook_feed_id :: string
  feed_catalog :: string

record db =
  apps :: "app list"
  catalogs :: "catalog list"
  feeds :: "product_feed list"
  writes :: "string list"

record task =
  task_name :: string
  task_credentials :: pyval
  task_catalog_uuid :: string
  task_sellers :: "string list option"
  task_queue :: string

definition config_get :: "app \<Rightarrow> string \<Rightarrow> pyval \<Rightarrow> pyval" where
  "config_get a k dflt = dict_get_default (map_of (config a)) k dflt"

text \<open>\<open>QuerySet.first()\<close>.\<close>

definition first :: "'a list \<Rightarrow> 'a option" where
  "first xs = (case xs of [] \<Rightarrow> None | x # _ \<Rightarrow> Some x)"

text \<open>\<open>key in container\<close> for the values a configuration entry can hold.\<close>

definition py_contains :: "pyval \<Rightarrow> string \<Rightarrow> exc + bool" where
  "py_contains container k =
     (case container of
        PDict kvs \<Rightarrow> Inr (k \<in> set (map fst kvs))
      | PList xs \<Rightarrow> Inr (PStr k \<in> set xs)
      | PStr s \<Rightarrow> Inr (\<exists>i \<in> set [0..<Suc (length s)]. prefix k (drop i s))
      | _ \<Rightarrow> Inl (TypeError ''argument is not iterable''))"

fun all_keys_in :: "pyval \<Rightarrow> string list \<Rightarrow> exc + bool" where
  "all_keys_in container [] = Inr True"
| "all_keys_in container (k # ks) =
     (case py_contains container k of
        Inl e \<Rightarrow> Inl e
      | Inr False \<Rightarrow> Inr False
      | Inr True \<Rightarrow> all_keys_in container ks)"

definition get_wpp_cloud_uuid :: "app \<Rightarrow> exc + pyval" where
  "get_wpp_cloud_uuid vtex_app =
     (let wpp_cloud_uuid = config_get vtex_app ''wpp_cloud_uuid'' PNone
      in if \<not> truthy wpp_cloud_uuid
         then Inl (ValueError ''The VTEX app does not have the WPP Cloud UUID in its configuration.'')
         else Inr wpp_cloud_uuid)"

definition get_credentials :: "app \<Rightarrow> exc + pyval" where
  "get_credentials vtex_app =
     (let api_credentials = config_get vtex_app ''api_credentials'' (PDict [])
      in case all_keys_in api_credentials [''app_key'', ''app_token'', ''domain''] of
           Inl e \<Rightarrow> Inl e
         | Inr False \<Rightarrow> Inl (ValueError ''Missing one or more API credentials.'')
         | Inr True \<Rightarrow> Inr api_credentials)"

text \<open>\<open>App.objects.get(uuid=..., [code=...])\<close>: \<open>Inr None\<close> is \<open>App.DoesNotExist\<close>.\<close>

definition app_objects_get :: "db \<Rightarrow> pyval \<Rightarrow> string option \<Rightarrow> exc + app option" where
  "app_objects_get d uuid code =
     (case uuid of
        PStr u \<Rightarrow>
          (case filter (\<lambda>a. app_uuid a = u \<and> (case code of None \<Rightarrow> True | Some c \<Rightarrow> app_code a = c))
                       (apps d) of
             [] \<Rightarrow> Inr None
           | [a] \<Rightarrow> Inr (Some a)
           | _ \<Rightarrow> Inl (ExternalError ''MultipleObjectsReturned''))
      | _ \<Rightarrow> Inl (ExternalError ''ValidationError: not a valid UUID''))"

definition get_wpp_cloud :: "string option \<Rightarrow> db \<Rightarrow> pyval \<Rightarrow> exc + app" where
  "get_wpp_cloud code d wpp_cloud_uuid =
     (case app_objects_get d wpp_cloud_uuid code of
        Inl e \<Rightarrow> Inl e
      | Inr None \<Rightarrow> Inl (ValueError ''The cloud app linked to the VTEX app does not exist.'')
      | Inr (Some a) \<Rightarrow> Inr a)"

definition app_catalogs :: "db \<Rightarrow> app \<Rightarrow> string \<Rightarrow> catalog list" where
  "app_catalogs d wpp_cloud catalog_id =
     filter (\<lambda>c. cat_app c = app_uuid wpp_cloud \<and> cat_facebook_catalog_id c = catalog_id) (catalogs d)"

definition catalog_feeds :: "db \<Rightarrow> catalog \<Rightarrow> product_feed list" where
  "catalog_feeds d c = filter (\<lambda>f. feed_catalog f = cat_uuid c) (feeds d)"

text \<open>The checks of \<open>CatalogInsertionBySeller\<close>, each returning the error it raises.\<close>

definition validate_link_apps :: "db \<Rightarrow> app \<Rightarrow> app \<Rightarrow> exc + catalog" where
  "validate_link_apps d wpp_cloud vtex_app =
     (case first (filter (\<lambda>c. cat_vtex_app c = Some (app_uuid vtex_app)) (catalogs d)) of
        None \<Rightarrow> Inl (ValueError ''There must be a catalog linked to the vtex app'')
      | Some vtex_catalog \<Rightarrow>
          (case first (app_catalogs d wpp_cloud (cat_facebook_catalog_id vtex_catalog)) of
             None \<Rightarrow> Inl (ValueError ''Catalog not found for cloud app'')
           | Some c \<Rightarrow> Inr c))"

definition validate_sync_status :: "app \<Rightarrow> exc option" where
  "validate_sync_status vtex_app =
     (let can_synchronize = config_get vtex_app ''initial_sync_completed'' (PBool False)
      in if \<not> truthy can_synchronize
         then Some (ValueError ''Initial synchronization not completed.'') else None)"

definition use_sync_v2 :: "app \<Rightarrow> pyval" where
  "use_sync_v2 vtex_app = config_get vtex_app ''use_sync_v2'' (PBool False)"

definition validate_catalog_feed :: "db \<Rightarrow> catalog \<Rightarrow> exc option" where
  "validate_catalog_feed d c =
     (if first (catalog_feeds d c) = None
      then Some (ValueError ''At least 1 feed created is required'') else None)"

definition validate_connected_catalog_flag :: "app \<Rightarrow> exc option" where
  "validate_connected_catalog_flag vtex_app =
     (let connected_catalog = config_get vtex_app ''connected_catalog'' PNone
      in if connected_catalog \<noteq> PBool True
         then Some (ValueError ''Change connected_catalog to True.'') else None)"

definition send_task :: "pyval \<Rightarrow> catalog \<Rightarrow> string list option \<Rightarrow> task" where
  "send_task credentials c sellers =
     \<lparr>task_name = ''task_insert_vtex_products_by_sellers'', task_credentials = credentials,
      task_catalog_uuid = cat_uuid c, task_sellers = sellers,
      task_queue = ''product_first_synchronization''\<rparr>"

text \<open>\<open>start_insertion_by_seller\<close> up to the catalog lookup: the app, its credentials and the linked catalog.\<close>

definition admit_by_seller :: "db \<Rightarrow> app option \<Rightarrow> string list \<Rightarrow> exc + (app \<times> pyval \<times> catalog)" where
  "admit_by_seller d vtex_app sellers =
     (case vtex_app of
        None \<Rightarrow> Inl (ValueError ''vtex_app is required.'')
      | Some va \<Rightarrow>
          if sellers = [] then Inl (ValueError ''sellers is required.'')
          else
            (case get_wpp_cloud_uuid va of
               Inl e \<Rightarrow> Inl e
             | Inr wpp_cloud_uuid \<Rightarrow>
                 (case get_credentials va of
                    Inl e \<Rightarrow> Inl e
                  | Inr credentials \<Rightarrow>
                      (case get_wpp_cloud (Some ''wpp-cloud'') d wpp_cloud_uuid of
                         Inl e \<Rightarrow> Inl e
                       | Inr wpp_cloud \<Rightarrow>
                           (case validate_link_apps d wpp_cloud va of
                              Inl e \<Rightarrow> Inl e
                            | Inr c \<Rightarrow> Inr (va, credentials, c))))))"

definition start_insertion_by_seller :: "db \<Rightarrow> app option \<Rightarrow> string list \<Rightarrow> exc + task" where
  "start_insertion_by_seller d vtex_app sellers =
     (case admit_by_seller d vtex_app sellers of
        Inl e \<Rightarrow> Inl e
      | Inr (va, credentials, c) \<Rightarrow>
          (case validate_sync_status va of
             Some e \<Rightarrow> Inl e
           | None \<Rightarrow>
               (case (if use_sync_v2 va = PBool False then validate_catalog_feed d c else None) of
                  Some e \<Rightarrow> Inl e
                | None \<Rightarrow>
                    (case validate_connected_catalog_flag va of
                       Some e \<Rightarrow> Inl e
                     | None \<Rightarrow> Inr (send_task credentials c (Some sellers))))))"

text \<open>Writes: \<open>save()\<close> replaces the row with the same key (or inserts it), \<open>delete()\<close> removes it. \<open>BaseModel.save\<close> refuses a stored row whose \<open>modified_by\<close> is unset.\<close>

definition save_app :: "app \<Rightarrow> db \<Rightarrow> exc + db" where
  "save_app a d =
     (if (case app_id a of None \<Rightarrow> False | Some n \<Rightarrow> n \<noteq> 0) \<and> modified_by a = None
      then Inl (ValueError ''modified_by can not be None'')
      else Inr (d\<lparr>apps := (if \<exists>x \<in> set (apps d). app_uuid x = app_uuid a
                            then map (\<lambda>x. if app_uuid x = app_uuid a then a else x) (apps d)
                            else apps d @ [a]),
                   writes := writes d @ [''save app '' @ app_uuid a]\<rparr>))"

text \<open>
  The one saved catalog has its \<open>modified_by\<close> set to the admin user just before the
  call, so the check of \<open>BaseModel.save\<close> passes there.
\<close>

definition save_catalog :: "catalog \<Rightarrow> db \<Rightarrow> db" where
  "save_catalog c d =
     d\<lparr>catalogs := (if \<exists>x \<in> set (catalogs d). cat_uuid x = cat_uuid c
                    then map (\<lambda>x. if cat_uuid x = cat_uuid c then c else x) (catalogs d)
                    else catalogs d @ [c]),
       writes := writes d @ [''save catalog '' @ cat_uuid c]\<rparr>"

definition delete_feed :: "product_feed \<Rightarrow> db \<Rightarrow> db" where
  "delete_feed f d =
     d\<lparr>feeds := filter (\<lambda>x. feed_uuid x \<noteq> feed_uuid f) (feeds d),
       writes := writes d @ [''delete feed '' @ feed_uuid f]\<rparr>"

text \<open>
  \<open>CatalogProductInsertion\<close>. The first statement of \<open>_get_or_sync_catalog\<close> is
  \<open>from marketplace.wpp_products.tasks import FacebookCatalogSyncService\<close>, executed
  at every call. \<open>tasks_module_names\<close> are the names that module binds (its imports,
  its constants and its functions); importing any other name from it raises
  \<open>ImportError\<close>. What the service would do if it were there is the parameter
  \<open>sync_catalogs\<close>.
\<close>

definition tasks_module_names :: "string list" where
  "tasks_module_names =
     [''logging'', ''wraps'', ''shared_task'', ''FacebookClient'', ''Catalog'', ''FlowsClient'',
      ''APPTYPES'', ''get_redis_connection'', ''logger'', ''SYNC_WHATSAPP_CATALOGS_LOCK_KEY'',
      ''sync_facebook_catalogs'', ''handle_exceptions'', ''get_extra_info'',
      ''list_all_catalogs_task'', ''update_catalogs_on_flows_task'',
      ''get_catalog_details_task'', ''create_catalog_task'', ''delete_catalogs_task'']"

definition import_from_tasks :: "string \<Rightarrow> exc option" where
  "import_from_tasks name =
     (if name \<in> set tasks_module_names then None
      else Some (ImportError (''cannot import name '' @ name @ '' from marketplace.wpp_products.tasks'')))"

definition import_error :: exc where
  "import_error =
     ImportError ''cannot import name FacebookCatalogSyncService from marketplace.wpp_products.tasks''"

definition get_or_sync_catalog ::
  "(app \<Rightarrow> db \<Rightarrow> exc + db) \<Rightarrow> app \<Rightarrow> string \<Rightarrow> db \<Rightarrow> exc + (catalog \<times> db)" where
  "get_or_sync_catalog sync_catalogs wpp_cloud catalog_id d =
     (case import_from_tasks ''FacebookCatalogSyncService'' of
        Some e \<Rightarrow> Inl e
      | None \<Rightarrow>
          (case first (app_catalogs d wpp_cloud catalog_id) of
             Some c \<Rightarrow> Inr (c, d)
           | None \<Rightarrow>
               (case sync_catalogs wpp_cloud d of
                  Inl e \<Rightarrow> Inl e
                | Inr d' \<Rightarrow>
                    (case first (app_catalogs d' wpp_cloud catalog_id) of
                       Some c \<Rightarrow> Inr (c, d')
                     | None \<Rightarrow>
                         Inl (ValueError ''Catalog not found for cloud app after synchronization.'')))))"

definition link_catalog_to_vtex_app_if_needed :: "catalog \<Rightarrow> app \<Rightarrow> db \<Rightarrow> db" where
  "link_catalog_to_vtex_app_if_needed c vtex_app d =
     (if cat_vtex_app c = None
      then save_catalog (c\<lparr>cat_vtex_app := Some (app_uuid vtex_app), cat_modified_by := ''admin''\<rparr>) d
      else d)"

definition delete_existing_feeds_ifexists :: "catalog \<Rightarrow> db \<Rightarrow> db" where
  "delete_existing_feeds_ifexists c d = fold delete_feed (catalog_feeds d c) d"

definition update_app_connected_catalog_flag :: "app \<Rightarrow> db \<Rightarrow> exc + (app \<times> db)" where
  "update_app_connected_catalog_flag a d =
     (let connected_catalog = config_get a ''connected_catalog'' PNone
      in if connected_catalog \<noteq> PBool True
         then (let a' = a\<lparr>config := AList.update ''connected_catalog'' (PBool True) (config a)\<rparr>
               in case save_app a' d of
                    Inl e \<Rightarrow> Inl e
                  | Inr d' \<Rightarrow> Inr (a', d'))
         else Inr (a, d))"

definition send_insert_task :: "pyval \<Rightarrow> catalog \<Rightarrow> string list option \<Rightarrow> task" where
  "send_insert_task credentials c sellers =
     \<lparr>task_name = ''task_insert_vtex_products'', task_credentials = credentials,
      task_catalog_uuid = cat_uuid c, task_sellers = sellers,
      task_queue = ''product_first_synchronization''\<rparr>"

definition first_product_insert_with_catalog ::
  "(app \<Rightarrow> db \<Rightarrow> exc + db) \<Rightarrow> app \<Rightarrow> string \<Rightarrow> string list option \<Rightarrow> db
     \<Rightarrow> exc + (app \<times> db \<times> task)" where
  "first_product_insert_with_catalog sync_catalogs vtex_app catalog_id sellers d =
     (case get_wpp_cloud_uuid vtex_app of
        Inl e \<Rightarrow> Inl e
      | Inr wpp_cloud_uuid \<Rightarrow>
          (case get_credentials vtex_app of
             Inl e \<Rightarrow> Inl e
           | Inr credentials \<Rightarrow>
               (case get_wpp_cloud None d wpp_cloud_uuid of
                  Inl e \<Rightarrow> Inl e
                | Inr wpp_cloud \<Rightarrow>
                    (case get_or_sync_catalog sync_catalogs wpp_cloud catalog_id d of
                       Inl e \<Rightarrow> Inl e
                     | Inr (c, d1) \<Rightarrow>
                         (case update_app_connected_catalog_flag vtex_app
                                 (delete_existing_feeds_ifexists c d1) of
                            Inl e \<Rightarrow> Inl e
                          | Inr (vtex_app', d3) \<Rightarrow>
                              Inr (vtex_app', link_catalog_to_vtex_app_if_needed c vtex_app' d3,
                                   send_insert_task credentials c sellers))))))"

text \<open>
  The state that first-insertion admission aims at, in the spec's words: the lookups
  of the app's configuration, of the cloud app and of the catalog succeed, the catalog
  has no feed left, the flag is \<open>True\<close> and the catalog is linked.
\<close>

definition lookup_catalog :: "app \<Rightarrow> string \<Rightarrow> db \<Rightarrow> exc + (pyval \<times> catalog)" where
  "lookup_catalog vtex_app catalog_id d =
     (case get_wpp_cloud_uuid vtex_app of
        Inl e \<Rightarrow> Inl e
      | Inr wpp_cloud_uuid \<Rightarrow>
          (case get_credentials vtex_app of
             Inl e \<Rightarrow> Inl e
           | Inr credentials \<Rightarrow>
               (case get_wpp_cloud None d wpp_cloud_uuid of
                  Inl e \<Rightarrow> Inl e
                | Inr wpp_cloud \<Rightarrow>
                    (case first (app_catalogs d wpp_cloud catalog_id) of
                       None \<Rightarrow> Inl (ValueError ''Catalog not found for cloud app'')
                     | Some c \<Rightarrow> Inr (credentials, c)))))"

definition target_state :: "app \<Rightarrow> string \<Rightarrow> db \<Rightarrow> bool" where
  "target_state vtex_app catalog_id d =
     (case lookup_catalog vtex_app catalog_id d of
        Inl e \<Rightarrow> False
      | Inr (credentials, c) \<Rightarrow>
          catalog_feeds d c = []
          \<and> config_get vtex_app ''connected_catalog'' PNone = PBool True
          \<and> cat_vtex_app c \<noteq> None)"

text \<open>A configured store with its cloud app and one catalog, in several states.\<close>

definition store_app :: app where
  "store_app = \<lparr>app_id = Some 1, app_uuid = ''v1'', app_code = ''vtex'',
     modified_by = Some ''admin'', flow_object_uuid = None,
     config = [(''wpp_cloud_uuid'', PStr ''w1''),
               (''api_credentials'', PDict [(''domain'', PStr ''shop''), (''app_key'', PStr ''k''),
                                            (''app_token'', PStr ''t'')]),
               (''initial_sync_completed'', PBool True),
               (''connected_catalog'', PBool True),
               (''use_sync_v2'', PBool True)]\<rparr>"

definition cloud_app :: app where
  "cloud_app = \<lparr>app_id = Some 2, app_uuid = ''w1'', app_code = ''wpp-cloud'',
     modified_by = Some ''admin'', flow_object_uuid = Some ''fl1'',
     config = [(''wa_business_id'', PStr ''b1''), (''wa_waba_id'', PStr ''wb1'')]\<rparr>"

definition store_catalog :: catalog where
  "store_catalog = \<lparr>cat_uuid = ''c1'', cat_facebook_catalog_id = ''101'', cat_name = ''Store'',
     cat_category = ''commerce'', cat_app = ''w1'', cat_vtex_app = Some ''v1'',
     cat_modified_by = ''admin''\<rparr>"

definition linked_db :: db where
  "linked_db = \<lparr>apps = [store_app, cloud_app], catalogs = [store_catalog], feeds = [], writes = []\<rparr>"

definition unsynced_app :: app where
  "unsynced_app = store_app\<lparr>config := AList.update ''initial_sync_completed'' (PBool False) (config store_app)\<rparr>"

definition legacy_app :: app where
  "legacy_app = store_app\<lparr>config := AList.update ''use_sync_v2'' (PBool False) (config store_app)\<rparr>"

definition store_credentials :: pyval where
  "store_credentials = PDict [(''domain'', PStr ''shop''), (''app_key'', PStr ''k''), (''app_token'', PStr ''t'')]"

definition admitted_db :: db where
  "admitted_db = linked_db\<lparr>writes := [''delete feed f1'', ''save app v1'', ''save catalog c1'']\<rparr>"

definition no_sync :: "app \<Rightarrow> db \<Rightarrow> exc + db" where
  "no_sync wpp_cloud d = Inr d"

section \<open>Catalog reconciliation (wpp\_products/tasks.py)\<close>

text \<open>
  The pass talks to the catalog provider, to the downstream flows service and to the
  database. Their answers are the environment: the listing and the details of the
  provider (an exception or a value), whether the flows update raises, whether the
  creation or the deletion of catalog rows raises, and the key given to a new row. The
  state is the database and a trace: the calls made to the provider's listing and to
  the flows service, and the lines written to the log. Reading the access token and
  the local catalog ids is taken to succeed. The decorator \<open>handle_exceptions\<close> is
  unfolded at each task: it logs the message with \<open>get_extra_info(*args)\<close> and
  swallows the exception, or re-raises it when \<open>continue_on_exception\<close> is false. For
  \<open>get_catalog_details_task\<close> the first argument is the client, not the app, so the
  extra information reads \<open>client.uuid\<close>: \<open>client_uuid\<close> is \<open>None\<close> when the client has
  no such attribute, and then that lookup raises in place of the logging. The two sets
  \<open>to_create\<close> and \<open>to_delete\<close> are kept as duplicate-free lists in listing order.
\<close>

datatype event =
    LogError string
  | LogInfo string
  | ListCall string
  | FlowsUpdate string "pyval list"

record sync_state =
  sdb :: db
  trace :: "event list"

record sync_env =
  list_all_catalogs :: "pyval \<Rightarrow> exc + (string list \<times> pyval list)"
  get_catalog_details :: "string \<Rightarrow> exc + pyval"
  client_uuid :: "string option"
  update_catalogs :: "string \<Rightarrow> pyval list \<Rightarrow> exc option"
  create_fault :: "string \<Rightarrow> exc option"
  delete_fault :: "string \<Rightarrow> exc option"
  fresh_uuid :: "catalog list \<Rightarrow> string"

definition emit :: "event \<Rightarrow> sync_state \<Rightarrow> sync_state" where
  "emit e st = st\<lparr>trace := trace st @ [e]\<rparr>"

definition py_str_uuid :: "string option \<Rightarrow> string" where
  "py_str_uuid u = (case u of None \<Rightarrow> ''None'' | Some s \<Rightarrow> s)"

definition get_extra_info :: "string \<Rightarrow> string" where
  "get_extra_info uuid = ''- UUID: '' @ uuid"

definition py_getitem :: "pyval \<Rightarrow> string \<Rightarrow> exc + pyval" where
  "py_getitem d k =
     (case d of
        PDict kvs \<Rightarrow> (case map_of kvs k of None \<Rightarrow> Inl (KeyError k) | Some v \<Rightarrow> Inr v)
      | _ \<Rightarrow> Inl (TypeError ''object is not subscriptable''))"

text \<open>The tasks of one connection. \<open>list_all_catalogs_task\<close> catches the failure itself and returns two empty lists.\<close>

definition list_all_catalogs_task ::
  "sync_env \<Rightarrow> app \<Rightarrow> sync_state \<Rightarrow> (string list \<times> pyval list) \<times> sync_state" where
  "list_all_catalogs_task env a st =
     (let st1 = emit (ListCall (app_uuid a)) st
      in case list_all_catalogs env (config_get a ''wa_business_id'' PNone) of
           Inr r \<Rightarrow> (r, st1)
         | Inl e \<Rightarrow> (([], []), emit (LogError ''Error on list all catalogs for App'') st1))"

definition update_catalogs_on_flows_task ::
  "sync_env \<Rightarrow> app \<Rightarrow> pyval list \<Rightarrow> sync_state \<Rightarrow> sync_state" where
  "update_catalogs_on_flows_task env a all_catalogs st =
     (let st1 = emit (FlowsUpdate (py_str_uuid (flow_object_uuid a)) all_catalogs) st
      in case update_catalogs env (py_str_uuid (flow_object_uuid a)) all_catalogs of
           None \<Rightarrow> st1
         | Some e \<Rightarrow>
             emit (LogError (''Error updating catalogs for App: '' @ get_extra_info (app_uuid a))) st1)"

text \<open>\<open>get_catalog_details_task\<close> is declared with \<open>continue_on_exception=False\<close>: the exception goes on to the caller.\<close>

definition get_catalog_details_task ::
  "sync_env \<Rightarrow> string \<Rightarrow> sync_state \<Rightarrow> (exc + pyval) \<times> sync_state" where
  "get_catalog_details_task env catalog_id st =
     (case get_catalog_details env catalog_id of
        Inr details \<Rightarrow> (Inr details, st)
      | Inl e \<Rightarrow>
          (case client_uuid env of
             None \<Rightarrow> (Inl (AttributeError ''client has no attribute uuid''), st)
           | Some u \<Rightarrow>
               (Inl e, emit (LogError (''Error getting catalog details for App'' @ get_extra_info u)) st)))"

text \<open>\<open>Catalog.objects.create\<close> from the details: a missing key or a failing insert is the error of \<open>create_catalog_task\<close>.\<close>

definition catalog_of_details :: "sync_env \<Rightarrow> app \<Rightarrow> pyval \<Rightarrow> catalog list \<Rightarrow> exc + catalog" where
  "catalog_of_details env a details existing =
     (case (py_getitem details ''id'', py_getitem details ''name'', py_getitem details ''vertical'') of
        (Inr (PStr i), Inr (PStr n), Inr (PStr v)) \<Rightarrow>
          (case create_fault env i of
             Some e \<Rightarrow> Inl e
           | None \<Rightarrow>
               Inr \<lparr>cat_uuid = fresh_uuid env existing, cat_facebook_catalog_id = i, cat_name = n,
                    cat_category = v, cat_app = app_uuid a, cat_vtex_app = None,
                    cat_modified_by = []\<rparr>)
      | (Inl e, _, _) \<Rightarrow> Inl e
      | (_, Inl e, _) \<Rightarrow> Inl e
      | (_, _, Inl e) \<Rightarrow> Inl e
      | _ \<Rightarrow> Inl (ExternalError ''invalid field value''))"

definition create_catalog_task :: "sync_env \<Rightarrow> app \<Rightarrow> pyval \<Rightarrow> sync_state \<Rightarrow> sync_state" where
  "create_catalog_task env a details st =
     (case catalog_of_details env a details (catalogs (sdb st)) of
        Inr c \<Rightarrow>
          st\<lparr>sdb := (sdb st)\<lparr>catalogs := catalogs (sdb st) @ [c],
                               writes := writes (sdb st) @ [''create catalog '' @ cat_uuid c]\<rparr>\<rparr>
      | Inl e \<Rightarrow>
          emit (LogError (''Error creating catalog for App: '' @ get_extra_info (app_uuid a))) st)"

definition delete_catalogs_task :: "sync_env \<Rightarrow> app \<Rightarrow> string list \<Rightarrow> sync_state \<Rightarrow> sync_state" where
  "delete_catalogs_task env a to_delete st =
     (case delete_fault env (app_uuid a) of
        None \<Rightarrow>
          st\<lparr>sdb := (sdb st)\<lparr>catalogs :=
                    filter (\<lambda>c. \<not> (cat_app c = app_uuid a \<and> cat_facebook_catalog_id c \<in> set to_delete))
                           (catalogs (sdb st)),
                  writes := writes (sdb st) @ [''delete catalogs of '' @ app_uuid a]\<rparr>\<rparr>
      | Some e \<Rightarrow>
          emit (LogError (''Error deleting catalogs for App: '' @ get_extra_info (app_uuid a))) st)"

text \<open>The loop over \<open>to_create\<close>: it ends at the first exception.\<close>

fun create_missing :: "sync_env \<Rightarrow> app \<Rightarrow> string list \<Rightarrow> sync_state \<Rightarrow> sync_state \<times> exc option" where
  "create_missing env a [] st = (st, None)"
| "create_missing env a (catalog_id # rest) st =
     (case get_catalog_details_task env catalog_id st of
        (Inl e, st1) \<Rightarrow> (st1, Some e)
      | (Inr details, st1) \<Rightarrow>
          create_missing env a rest
            (if truthy details then create_catalog_task env a details st1 else st1))"

definition is_configured :: "app \<Rightarrow> bool" where
  "is_configured a =
     (truthy (config_get a ''wa_business_id'' PNone) \<and> truthy (config_get a ''wa_waba_id'' PNone))"

text \<open>The body of the loop over the connections, and the loop: an exception ends the pass.\<close>

definition sync_app :: "sync_env \<Rightarrow> app \<Rightarrow> sync_state \<Rightarrow> sync_state \<times> exc option" where
  "sync_app env a st =
     (let wa_business_id = config_get a ''wa_business_id'' PNone;
          wa_waba_id = config_get a ''wa_waba_id'' PNone
      in if truthy wa_business_id \<and> truthy wa_waba_id then
           (let local_catalog_ids =
                  map cat_facebook_catalog_id
                      (filter (\<lambda>c. cat_app c = app_uuid a) (catalogs (sdb st)));
                ((all_catalogs_id, all_catalogs), st1) = list_all_catalogs_task env a st
            in if all_catalogs_id \<noteq> [] then
                 (let st2 = update_catalogs_on_flows_task env a all_catalogs st1;
                      to_create = remdups (filter (\<lambda>i. i \<notin> set local_catalog_ids) all_catalogs_id);
                      to_delete = remdups (filter (\<lambda>i. i \<notin> set all_catalogs_id) local_catalog_ids)
                  in case create_missing env a to_create st2 of
                       (st3, Some e) \<Rightarrow> (st3, Some e)
                     | (st3, None) \<Rightarrow>
                         (if to_delete \<noteq> [] then delete_catalogs_task env a to_delete st3 else st3,
                          None))
               else (st1, None))
         else (st, None))"

fun sync_apps :: "sync_env \<Rightarrow> app list \<Rightarrow> sync_state \<Rightarrow> sync_state \<times> exc option" where
  "sync_apps env [] st = (st, None)"
| "sync_apps env (a # rest) st =
     (case sync_app env a st of
        (st', Some e) \<Rightarrow> (st', Some e)
      | (st', None) \<Rightarrow> sync_apps env rest st')"

text \<open>\<open>sync_facebook_catalogs\<close>; \<open>lock_held\<close> is the answer of \<open>redis.get\<close> for the lock key.\<close>

definition sync_facebook_catalogs ::
  "sync_env \<Rightarrow> bool \<Rightarrow> app list \<Rightarrow> sync_state \<Rightarrow> sync_state \<times> exc option" where
  "sync_facebook_catalogs env lock_held wpp_cloud_apps st =
     (if lock_held
      then (emit (LogInfo ''The catalogs are already syncing by another task!'') st, None)
      else sync_apps env wpp_cloud_apps st)"


text \<open>Environments and states for the examples.\<close>

definition provider_error :: exc where
  "provider_error = ExternalError ''provider error''"

definition list_one :: "pyval \<Rightarrow> exc + (string list \<times> pyval list)" where
  "list_one business_id =
     Inr ([''101''], [PDict [(''id'', PStr ''101''), (''name'', PStr ''Store'')]])"

definition list_none :: "pyval \<Rightarrow> exc + (string list \<times> pyval list)" where
  "list_none business_id = Inr ([], [])"

definition details_fail :: "string \<Rightarrow> exc + pyval" where
  "details_fail catalog_id = Inl provider_error"

definition details_ok :: "string \<Rightarrow> exc + pyval" where
  "details_ok catalog_id =
     Inr (PDict [(''id'', PStr catalog_id), (''name'', PStr ''Store''), (''vertical'', PStr ''commerce'')])"

definition flows_ok :: "string \<Rightarrow> pyval list \<Rightarrow> exc option" where
  "flows_ok flow_uuid all_catalogs = None"

definition no_db_fault :: "string \<Rightarrow> exc option" where
  "no_db_fault key = None"

definition next_uuid :: "catalog list \<Rightarrow> string" where
  "next_uuid existing = replicate (Suc (length existing)) (CHR ''c'')"

definition details_down_env :: sync_env where
  "details_down_env = \<lparr>list_all_catalogs = list_one, get_catalog_details = details_fail,
     client_uuid = Some ''client'', update_catalogs = flows_ok, create_fault = no_db_fault,
     delete_fault = no_db_fault, fresh_uuid = next_uuid\<rparr>"

definition healthy_env :: sync_env where
  "healthy_env = \<lparr>list_all_catalogs = list_one, get_catalog_details = details_ok,
     client_uuid = None, update_catalogs = flows_ok, create_fault = no_db_fault,
     delete_fault = no_db_fault, fresh_uuid = next_uuid\<rparr>"

definition empty_listing_env :: sync_env where
  "empty_listing_env = \<lparr>list_all_catalogs = list_none, get_catalog_details = details_ok,
     client_uuid = None, update_catalogs = flows_ok, create_fault = no_db_fault,
     delete_fault = no_db_fault, fresh_uuid = next_uuid\<rparr>"

definition second_cloud_app :: app where
  "second_cloud_app = \<lparr>app_id = Some 3, app_uuid = ''w2'', app_code = ''wpp-cloud'',
     modified_by = Some ''admin'', flow_object_uuid = Some ''fl2'',
     config = [(''wa_business_id'', PStr ''b2''), (''wa_waba_id'', PStr ''wb2'')]\<rparr>"

definition empty_state :: sync_state where
  "empty_state = \<lparr>sdb = \<lparr>apps = [cloud_app, second_cloud_app], catalogs = [], feeds = [], writes = []\<rparr>,
                   trace = []\<rparr>"

definition synced_state :: sync_state where
  "synced_state = \<lparr>sdb = linked_db, trace = []\<rparr>"

text \<open>The catalog ids stored locally for a connection (\<open>local_catalog_ids\<close> in the loop).\<close>

definition local_catalog_ids :: "app \<Rightarrow> sync_state \<Rightarrow> string list" where
  "local_catalog_ids a st =
     map cat_facebook_catalog_id (filter (\<lambda>c. cat_app c = app_uuid a) (catalogs (sdb st)))"

text \<open>
  An environment in which the listing of the first connection, the flows update, the
  creation and the deletion all fail, and a state with a local catalog that the
  provider no longer lists; the trace such a pass leaves.
\<close>

definition list_flaky :: "pyval \<Rightarrow> exc + (string list \<times> pyval list)" where
  "list_flaky business_id =
     (if business_id = PStr ''b1'' then Inl provider_error
      else Inr ([''101''], [PDict [(''id'', PStr ''101''), (''name'', PStr ''Store'')]]))"

definition flows_fail :: "string \<Rightarrow> pyval list \<Rightarrow> exc option" where
  "flows_fail flow_uuid all_catalogs = Some provider_error"

definition db_fault :: "string \<Rightarrow> exc option" where
  "db_fault key = Some (ExternalError ''database error'')"

definition flaky_env :: sync_env where
  "flaky_env = \<lparr>list_all_catalogs = list_flaky, get_catalog_details = details_ok,
     client_uuid = None, update_catalogs = flows_fail, create_fault = db_fault,
     delete_fault = db_fault, fresh_uuid = next_uuid\<rparr>"

definition stale_catalog :: catalog where
  "stale_catalog = \<lparr>cat_uuid = ''c9'', cat_facebook_catalog_id = ''999'', cat_name = ''Old'',
     cat_category = ''commerce'', cat_app = ''w2'', cat_vtex_app = None, cat_modified_by = []\<rparr>"

definition stale_state :: sync_state where
  "stale_state = \<lparr>sdb = \<lparr>apps = [cloud_app, second_cloud_app], catalogs = [stale_catalog],
                          feeds = [], writes = []\<rparr>,
                   trace = []\<rparr>"

definition flaky_trace :: "event list" where
  "flaky_trace =
     [ListCall ''w1'',
      LogError ''Error on list all catalogs for App'',
      ListCall ''w2'',
      FlowsUpdate ''fl2'' [PDict [(''id'', PStr ''101''), (''name'', PStr ''Store'')]],
      LogError ''Error updating catalogs for App: - UUID: w2'',
      LogError ''Error creating catalog for App: - UUID: w2'',
      LogError ''Error deleting catalogs for App: - UUID: w2'']"

section \<open>Properties\<close>

subsection \<open>SKU extraction\<close>






subsection \<open>Seller identifiers\<close>

text \<open>
  C10. Seller-id extraction from a webhook payload gives the SellerChain value
  precedence: when both An and SellerChain are truthy the SellerChain value is
  returned; when only An is truthy the An value is returned; in every other case,
  also for a payload with SellerChain but no An, the result is None, and then the
  caller returns the provider's full list of active sellers.
\<close>

theorem extract_sellers_ids_precedence:
  "(truthy (dict_get w ''An'') \<and> truthy (dict_get w ''SellerChain'')
      \<longrightarrow> extract_sellers_ids w = dict_get w ''SellerChain'')
   \<and> (truthy (dict_get w ''An'') \<and> \<not> truthy (dict_get w ''SellerChain'')
      \<longrightarrow> extract_sellers_ids w = dict_get w ''An'')
   \<and> (\<not> truthy (dict_get w ''An'')
      \<longrightarrow> extract_sellers_ids w = PNone \<and> get_sellers_ids active (Some w) = active)"
  by (simp add: extract_sellers_ids_def get_sellers_ids_def Let_def)

theorem extract_sellers_ids_precedence_witness:
  "extract_sellers_ids [''An'' \<mapsto> PStr ''s1'', ''SellerChain'' \<mapsto> PStr ''s2''] = PStr ''s2''
   \<and> extract_sellers_ids [''An'' \<mapsto> PStr ''s1''] = PStr ''s1''
   \<and> extract_sellers_ids [''SellerChain'' \<mapsto> PStr ''s2''] = PNone
   \<and> get_sellers_ids (Inr [PStr ''a'', PStr ''b'']) (Some [''SellerChain'' \<mapsto> PStr ''s2''])
       = Inr [PStr ''a'', PStr ''b'']"
  using extract_sellers_ids_precedence
          [of "[''An'' \<mapsto> PStr ''s1'', ''SellerChain'' \<mapsto> PStr ''s2'']" "Inr []"]
        extract_sellers_ids_precedence [of "[''An'' \<mapsto> PStr ''s1'']" "Inr []"]
        extract_sellers_ids_precedence
          [of "[''SellerChain'' \<mapsto> PStr ''s2'']" "Inr [PStr ''a'', PStr ''b'']"]
  by (simp add: dict_get_def)

subsection \<open>Feed encoder\<close>

lemma set_py_replace_char:
  "set (py_replace_char old new s) \<subseteq> (set s - {old}) \<union> set new"
  by (induction s) (auto simp: py_replace_char_def)

lemma escape_quotes_no_quote:
  "CHR 0x22 \<notin> set (escape_quotes t) \<and> CHR 0x27 \<notin> set (escape_quotes t)"
proof -
  have a: "set (escape_quotes t) \<subseteq> (set (py_replace_char (CHR 0x22) [] t) - {CHR 0x27}) \<union> set '' ''"
    unfolding escape_quotes_def by (rule set_py_replace_char)
  have b: "set (py_replace_char (CHR 0x22) [] t) \<subseteq> (set t - {CHR 0x22}) \<union> set []"
    by (rule set_py_replace_char)
  from a b show ?thesis by auto
qed

lemma set_py_join: "set (py_join sep xs) \<subseteq> set sep \<union> (\<Union>x \<in> set xs. set x)"
  by (induction sep xs rule: py_join.induct) auto

lemma header_no_quote: "CHR 0x22 \<notin> set header \<and> CHR 0x27 \<notin> set header \<and> CHR 0x0A \<notin> set header \<and> header \<noteq> []"
  by (simp add: header_def)

lemma py_join_Cons: "py_join sep (x # xs) = x @ concat (map (\<lambda>l. sep @ l) xs)"
  by (induction xs arbitrary: x) auto

lemma prefix_across_sep:
  assumes "nl \<notin> set pat"
  shows "prefix pat (xs @ nl # ys) = prefix pat xs"
proof
  assume "prefix pat (xs @ nl # ys)"
  then have "prefix pat xs \<or> (\<exists>us. pat = xs @ us \<and> prefix us (nl # ys))"
    by (simp add: prefix_append)
  then show "prefix pat xs"
  proof
    assume "prefix pat xs" then show ?thesis .
  next
    assume "\<exists>us. pat = xs @ us \<and> prefix us (nl # ys)"
    then obtain us where us: "pat = xs @ us" "prefix us (nl # ys)" by blast
    show ?thesis
    proof (cases us)
      case Nil
      with us show ?thesis by simp
    next
      case (Cons u us')
      with us have "u = nl" by simp
      with Cons us have "nl \<in> set pat" by simp
      with assms show ?thesis by simp
    qed
  qed
next
  assume "prefix pat xs" then show "prefix pat (xs @ nl # ys)" by (rule prefix_prefix)
qed

lemma occurrences_across_sep:
  assumes "nl \<notin> set pat" "pat \<noteq> []"
  shows "occurrences pat (xs @ nl # ys) = occurrences pat xs + occurrences pat ys"
proof (induction xs)
  case Nil
  from assms have "\<not> prefix pat (nl # ys)" by (cases pat) auto
  with assms show ?case by simp
next
  case (Cons x xs)
  have "prefix pat ((x # xs) @ nl # ys) = prefix pat (x # xs)"
    using assms(1) by (rule prefix_across_sep)
  with Cons show ?case by simp
qed

lemma occurrences_short: "length s < length pat \<Longrightarrow> occurrences pat s = 0"
  by (induction s) (auto dest: prefix_length_le)

lemma occurrences_self: "pat \<noteq> [] \<Longrightarrow> occurrences pat pat = 1"
  by (cases pat) (simp_all add: occurrences_short)

lemma occurrences_lines:
  assumes "nl \<notin> set pat" "pat \<noteq> []"
  shows "occurrences pat (xs @ concat (map (\<lambda>l. nl # l) ls))
         = occurrences pat xs + sum_list (map (occurrences pat) ls)"
proof (induction ls arbitrary: xs)
  case Nil
  show ?case by simp
next
  case (Cons l ls)
  have "occurrences pat (xs @ concat (map (\<lambda>l. nl # l) (l # ls)))
        = occurrences pat (xs @ nl # (l @ concat (map (\<lambda>l. nl # l) ls)))" by simp
  also have "\<dots> = occurrences pat xs + occurrences pat (l @ concat (map (\<lambda>l. nl # l) ls))"
    using assms by (rule occurrences_across_sep)
  also have "\<dots> = occurrences pat xs + (occurrences pat l + sum_list (map (occurrences pat) ls))"
    by (simp only: Cons.IH)
  finally show ?case by simp
qed

lemma py_replace_char_delete: "py_replace_char old [] s = filter (\<lambda>c. c \<noteq> old) s"
  by (induction s) (simp_all add: py_replace_char_def)

lemma py_replace_char_single: "py_replace_char old [new] s = map (\<lambda>c. if c = old then new else c) s"
  by (induction s) (simp_all add: py_replace_char_def)

lemma escape_quotes_removed: "escape_quotes text = quotes_removed text"
  by (simp add: escape_quotes_def quotes_removed_def py_replace_char_delete py_replace_char_single)

text \<open>
  C7 (as stated, refuted). A record whose data is the header text puts the header
  line into the output a second time, in the middle of the file.
\<close>

theorem header_repeated_counterexample:
  "convert_to_csv [header_row] True = header @ CHR 0x0A # header
   \<and> occurrences header (convert_to_csv [header_row] True) = 2"
  by code_simp

text \<open>
  C7 (amended). For every input batch the output of the feed encoder holds no
  double-quote and no single-quote character, whatever the product records contain and
  with or without the header: the escaping deletes the double quotes of the field data,
  replaces each single quote with a space and keeps every other character in order.
  With the header, the output is the fixed header, written once at the start, followed
  by one escaped line per record; the header text occurs once plus as often as the
  records' own escaped data contain it, so exactly once when no record carries it.
\<close>

theorem convert_to_csv_quotes_header:
  "CHR 0x22 \<notin> set (convert_to_csv products include_header)
   \<and> CHR 0x27 \<notin> set (convert_to_csv products include_header)
   \<and> escape_quotes text = quotes_removed text
   \<and> convert_to_csv products True
       = header @ concat (map (\<lambda>p. CHR 0x0A # quotes_removed (data p)) products)
   \<and> convert_to_csv products False
       = py_join [CHR 0x0A] (map (\<lambda>p. quotes_removed (data p)) products)
   \<and> occurrences header (convert_to_csv products True)
       = 1 + sum_list (map (\<lambda>p. occurrences header (quotes_removed (data p))) products)
   \<and> ((\<forall>p \<in> set products. occurrences header (quotes_removed (data p)) = 0)
        \<longrightarrow> occurrences header (convert_to_csv products True) = 1)"
proof -
  have q: "c \<noteq> CHR 0x22 \<and> c \<noteq> CHR 0x27"
    if c: "c \<in> set (convert_to_csv products include_header)" for c
  proof -
    from c have "c \<in> set [CHR 0x0A] \<union> (\<Union>x \<in> set (csv_lines products include_header). set x)"
      using set_py_join unfolding convert_to_csv_def by blast
    then have "c = CHR 0x0A \<or> c \<in> set header
               \<or> (\<exists>p::upload_product. c \<in> set (escape_quotes (data p)))"
      by (auto simp: csv_lines_def split: if_splits)
    then show ?thesis
      using header_no_quote escape_quotes_no_quote by auto
  qed
  have s: "convert_to_csv products True
       = header @ concat (map (\<lambda>p. CHR 0x0A # quotes_removed (data p)) products)"
    by (simp add: convert_to_csv_def csv_lines_def py_join_Cons comp_def escape_quotes_removed)
  have f: "convert_to_csv products False
       = py_join [CHR 0x0A] (map (\<lambda>p. quotes_removed (data p)) products)"
    by (simp add: convert_to_csv_def csv_lines_def escape_quotes_removed)
  have n: "occurrences header (convert_to_csv products True)
       = 1 + sum_list (map (\<lambda>p. occurrences header (quotes_removed (data p))) products)"
  proof -
    have "convert_to_csv products True
          = header @ concat (map (\<lambda>l. CHR 0x0A # l) (map (\<lambda>p. quotes_removed (data p)) products))"
      by (simp add: s comp_def)
    moreover have "occurrences header header = 1"
      using header_no_quote by (simp add: occurrences_self)
    ultimately show ?thesis
      using occurrences_lines [of "CHR 0x0A" header header
              "map (\<lambda>p. quotes_removed (data p)) products"] header_no_quote
      by (simp add: comp_def)
  qed
  have o: "occurrences header (convert_to_csv products True) = 1"
    if h: "\<forall>p \<in> set products. occurrences header (quotes_removed (data p)) = 0"
  proof -
    have "sum_list (map (\<lambda>p. occurrences header (quotes_removed (data p))) products) = 0"
      using h by (induction products) auto
    with n show ?thesis by simp
  qed
  from q have "CHR 0x22 \<notin> set (convert_to_csv products include_header)"
    and "CHR 0x27 \<notin> set (convert_to_csv products include_header)" by blast+
  with s f n o escape_quotes_removed show ?thesis by blast
qed

theorem convert_to_csv_quotes_header_witness:
  "occurrences header (quotes_removed (data shoe)) = 0
   \<and> occurrences header (convert_to_csv [shoe] True) = 1
   \<and> escape_quotes (data shoe) = ''5a b''
   \<and> convert_to_csv [shoe] True = header @ [CHR 0x0A] @ ''5a b''"
proof -
  have h: "\<forall>p \<in> set [shoe]. occurrences header (quotes_removed (data p)) = 0" by code_simp
  have q: "quotes_removed (data shoe) = ''5a b''" by code_simp
  note t = convert_to_csv_quotes_header [of "[shoe]" True "data shoe"]
  from h have 1: "occurrences header (quotes_removed (data shoe)) = 0" by simp
  from t h have 2: "occurrences header (convert_to_csv [shoe] True) = 1" by blast
  from t have "escape_quotes (data shoe) = quotes_removed (data shoe)" by blast
  with q have 3: "escape_quotes (data shoe) = ''5a b''" by simp
  from t have "convert_to_csv [shoe] True
       = header @ concat (map (\<lambda>p. CHR 0x0A # quotes_removed (data p)) [shoe])" by blast
  with q have 4: "convert_to_csv [shoe] True = header @ [CHR 0x0A] @ ''5a b''" by simp
  from 1 2 3 4 show ?thesis by blast
qed

subsection \<open>Batch fetcher\<close>


lemma map_up_id_update_status [simp]: "map up_id (update_status P new rows) = map up_id rows"
  by (simp add: update_status_def comp_def)

lemma map_up_id_mark [simp]:
  "map up_id (mark_products_as_sent ids rows) = map up_id rows"
  "map up_id (mark_products_as_error ids rows) = map up_id rows"
  by (simp_all add: mark_products_as_sent_def mark_products_as_error_def)

lemma id_in_selection:
  assumes "distinct (map up_id rows)" "set sel \<subseteq> set rows" "r \<in> set rows"
  shows "up_id r \<in> set (map up_id sel) \<longleftrightarrow> r \<in> set sel"
proof -
  from assms(1) have "inj_on up_id (set rows)" by (simp add: distinct_map)
  with assms(2,3) show ?thesis by (auto dest: inj_onD)
qed

lemma filter_update_status_same:
  "filter P (update_status P new rows) = map (\<lambda>r. r\<lparr>status := new\<rparr>) (filter P rows)"
  if "\<And>r. P (r\<lparr>status := new\<rparr>) = P r"
  using that by (induction rows) (auto simp: update_status_def)

lemma fetcher_next_None: "(fetcher_next c n rows = None) = (pending_query c n rows = [])"
  by (simp add: fetcher_next_def Let_def)

lemma fetcher_next_Some:
  assumes "fetcher_next c n rows = Some (ps, ids, rows')"
  shows "rows' = update_status (\<lambda>r. up_id r \<in> set (map up_id (pending_query c n rows))) Processing rows"
    and "ps = map (\<lambda>r. r\<lparr>status := Processing\<rparr>)
                 (filter (\<lambda>r. up_id r \<in> set (map up_id (pending_query c n rows))) rows)"
    and "ids = map facebook_product_id ps"
    and "pending_query c n rows \<noteq> []"
proof -
  let ?P = "\<lambda>r. up_id r \<in> set (map up_id (pending_query c n rows))"
  from assms show ne: "pending_query c n rows \<noteq> []"
    by (auto simp: fetcher_next_def Let_def split: if_splits)
  from assms ne show r: "rows' = update_status ?P Processing rows"
    by (simp add: fetcher_next_def claim_batch_def Let_def)
  from assms ne have "ps = filter ?P (update_status ?P Processing rows)"
    by (auto simp: fetcher_next_def claim_batch_def Let_def)
  then show p: "ps = map (\<lambda>r. r\<lparr>status := Processing\<rparr>) (filter ?P rows)"
    by (simp add: filter_update_status_same)
  from assms ne show "ids = map facebook_product_id ps"
    by (auto simp: fetcher_next_def claim_batch_def Let_def)
qed

lemma pending_after_next:
  assumes "fetcher_next c n rows = Some (ps, ids, rows')"
  shows "filter (is_pending c) rows'
         = filter (\<lambda>r. is_pending c r \<and> up_id r \<notin> set (map up_id (pending_query c n rows))) rows"
proof -
  have "filter (is_pending c) (update_status (\<lambda>r. up_id r \<in> I) Processing rows)
        = filter (\<lambda>r. is_pending c r \<and> up_id r \<notin> I) rows" for I
    by (induction rows) (auto simp: update_status_def is_pending_def)
  with fetcher_next_Some(1) [OF assms] show ?thesis by simp
qed

lemma selection_in_rows:
  "set (map up_id (pending_query c n rows)) \<subseteq> up_id ` {r \<in> set rows. is_pending c r}"
  using set_pending_query [of c n rows] by auto

lemma batch_ids:
  assumes "fetcher_next c n rows = Some (ps, ids, rows')"
  shows "set (map up_id ps) = set (map up_id (pending_query c n rows))"
proof -
  let ?I = "set (map up_id (pending_query c n rows))"
  have "set (map up_id ps) = up_id ` {r \<in> set rows. up_id r \<in> ?I}"
    by (simp add: fetcher_next_Some(2) [OF assms] image_image comp_def)
  also have "\<dots> = ?I"
  proof
    show "up_id ` {r \<in> set rows. up_id r \<in> ?I} \<subseteq> ?I" by blast
    show "?I \<subseteq> up_id ` {r \<in> set rows. up_id r \<in> ?I}"
    proof
      fix i assume "i \<in> ?I"
      then obtain r where r: "r \<in> set (pending_query c n rows)" "i = up_id r" by auto
      with set_pending_query [of c n rows] have "r \<in> set rows" by blast
      with r show "i \<in> up_id ` {r \<in> set rows. up_id r \<in> ?I}" by auto
    qed
  qed
  finally show ?thesis .
qed

lemma pass_ids_subset:
  "set (pass_ids (fetch_pass sent c n k rows)) \<subseteq> up_id ` {r \<in> set rows. is_pending c r}"
proof (induction sent c n k rows rule: fetch_pass.induct)
  case (1 sent c n k rows)
  show ?case
  proof (cases "fetcher_next c n rows")
    case None
    then show ?thesis by (subst fetch_pass.simps) (simp add: pass_ids_def)
  next
    case (Some t)
    then obtain ps ids rows' where t: "t = (ps, ids, rows')" by (cases t) auto
    let ?rows'' = "if sent k then mark_products_as_sent ids rows' else mark_products_as_error ids rows'"
    have pend: "filter (is_pending c) ?rows'' = filter (is_pending c) rows'"
      by (simp add: filter_pending_mark_sent filter_pending_mark_error)
    have "set (pass_ids (fetch_pass sent c n (Suc k) ?rows''))
            \<subseteq> up_id ` {r \<in> set ?rows''. is_pending c r}"
      using "1.IH" [OF Some t [symmetric] refl] by simp
    also have "{r \<in> set ?rows''. is_pending c r} = set (filter (is_pending c) ?rows'')" by auto
    also have "\<dots> = set (filter (is_pending c) rows')" by (simp only: pend)
    also have "\<dots> \<subseteq> {r \<in> set rows. is_pending c r}"
      using pending_after_next [of c n rows ps ids rows'] Some t by auto
    finally have rest: "set (pass_ids (fetch_pass sent c n (Suc k) ?rows''))
            \<subseteq> up_id ` {r \<in> set rows. is_pending c r}" by blast
    have first: "set (map up_id ps) \<subseteq> up_id ` {r \<in> set rows. is_pending c r}"
      using batch_ids [of c n rows ps ids rows'] selection_in_rows [of c n rows] Some t by simp
    have "pass_ids (fetch_pass sent c n k rows)
          = map up_id ps @ pass_ids (fetch_pass sent c n (Suc k) ?rows'')"
      using Some t by (subst fetch_pass.simps) (simp add: pass_ids_def)
    with rest first show ?thesis by simp
  qed
qed


lemma pass_step:
  assumes "fetcher_next c n rows = Some (ps, ids, rows')"
  shows "pass_ids (fetch_pass sent c n k rows)
          = map up_id ps @ pass_ids (fetch_pass sent c n (Suc k)
              (if sent k then mark_products_as_sent ids rows' else mark_products_as_error ids rows'))"
  using assms by (subst fetch_pass.simps) (simp add: pass_ids_def)

lemma pending_after_batch:
  assumes "fetcher_next c n rows = Some (ps, ids, rows')"
  shows "{r \<in> set (if sent then mark_products_as_sent ids rows' else mark_products_as_error ids rows').
            is_pending c r}
         = {r \<in> set rows. is_pending c r \<and> up_id r \<notin> set (map up_id ps)}"
proof -
  let ?rows'' = "if sent then mark_products_as_sent ids rows' else mark_products_as_error ids rows'"
  have "{r \<in> set ?rows''. is_pending c r} = set (filter (is_pending c) ?rows'')" by auto
  also have "\<dots> = set (filter (is_pending c) rows')"
    by (cases sent) (simp_all only: filter_pending_mark_sent filter_pending_mark_error if_True if_False)
  also have "\<dots> = {r \<in> set rows. is_pending c r \<and> up_id r \<notin> set (map up_id ps)}"
    by (simp only: pending_after_next [OF assms] batch_ids [OF assms]) auto
  finally show ?thesis .
qed

lemma pass_ids_distinct:
  "distinct (map up_id rows) \<Longrightarrow> distinct (pass_ids (fetch_pass sent c n k rows))"
proof (induction sent c n k rows rule: fetch_pass.induct)
  case (1 sent c n k rows)
  show ?case
  proof (cases "fetcher_next c n rows")
    case None
    then show ?thesis by (subst fetch_pass.simps) (simp add: pass_ids_def)
  next
    case (Some t)
    then obtain ps ids rows' where t: "t = (ps, ids, rows')" by (cases t) auto
    with Some have nx: "fetcher_next c n rows = Some (ps, ids, rows')" by simp
    let ?rows'' = "if sent k then mark_products_as_sent ids rows' else mark_products_as_error ids rows'"
    have ids'': "map up_id ?rows'' = map up_id rows"
      by (simp add: fetcher_next_Some(1) [OF nx])
    have rest: "distinct (pass_ids (fetch_pass sent c n (Suc k) ?rows''))"
      using "1.IH" [OF Some t [symmetric] refl] "1.prems" ids'' by simp
    have first: "distinct (map up_id ps)"
      using "1.prems" by (simp add: fetcher_next_Some(2) [OF nx] comp_def distinct_map_filter)
    have "set (pass_ids (fetch_pass sent c n (Suc k) ?rows''))
            \<subseteq> up_id ` {r \<in> set ?rows''. is_pending c r}"
      by (rule pass_ids_subset)
    also have "\<dots> = up_id ` {r \<in> set rows. is_pending c r \<and> up_id r \<notin> set (map up_id ps)}"
      by (simp only: pending_after_batch [OF nx])
    finally have sub: "set (pass_ids (fetch_pass sent c n (Suc k) ?rows''))
            \<subseteq> up_id ` {r \<in> set rows. is_pending c r \<and> up_id r \<notin> set (map up_id ps)}" .
    have disj: "set (map up_id ps) \<inter> set (pass_ids (fetch_pass sent c n (Suc k) ?rows'')) = {}"
      using sub by blast
    from rest first disj show ?thesis
      by (simp only: pass_step [OF nx] distinct_append)
  qed
qed

lemma pending_query_Nil:
  "0 < n \<Longrightarrow> (pending_query c n rows = []) = (filter (is_pending c) rows = [])"
proof -
  assume "0 < n"
  have "(sort_key modified_on (filter (is_pending c) rows) = []) = (filter (is_pending c) rows = [])"
    by (metis length_sort length_0_conv)
  with \<open>0 < n\<close> show ?thesis by (simp add: pending_query_def)
qed

lemma pass_ids_cover:
  "0 < n \<Longrightarrow> set (pass_ids (fetch_pass sent c n k rows)) = up_id ` {r \<in> set rows. is_pending c r}"
proof (induction sent c n k rows rule: fetch_pass.induct)
  case (1 sent c n k rows)
  show ?case
  proof (cases "fetcher_next c n rows")
    case None
    then have "filter (is_pending c) rows = []"
      using "1.prems" by (simp add: fetcher_next_None pending_query_Nil)
    then have "{r \<in> set rows. is_pending c r} = {}"
      by (simp add: filter_empty_conv)
    with None show ?thesis by (subst fetch_pass.simps) (simp add: pass_ids_def)
  next
    case (Some t)
    then obtain ps ids rows' where t: "t = (ps, ids, rows')" by (cases t) auto
    with Some have nx: "fetcher_next c n rows = Some (ps, ids, rows')" by simp
    let ?rows'' = "if sent k then mark_products_as_sent ids rows' else mark_products_as_error ids rows'"
    have "set (pass_ids (fetch_pass sent c n (Suc k) ?rows''))
            = up_id ` {r \<in> set ?rows''. is_pending c r}"
      using "1.IH" [OF Some t [symmetric] refl] "1.prems" by simp
    also have "\<dots> = up_id ` {r \<in> set rows. is_pending c r \<and> up_id r \<notin> set (map up_id ps)}"
      by (simp only: pending_after_batch [OF nx])
    finally have rest: "set (pass_ids (fetch_pass sent c n (Suc k) ?rows''))
            = up_id ` {r \<in> set rows. is_pending c r \<and> up_id r \<notin> set (map up_id ps)}" .
    have first: "set (map up_id ps) \<subseteq> up_id ` {r \<in> set rows. is_pending c r}"
      using batch_ids [OF nx] selection_in_rows [of c n rows] by simp
    have "set (pass_ids (fetch_pass sent c n k rows))
          = set (map up_id ps) \<union> set (pass_ids (fetch_pass sent c n (Suc k) ?rows''))"
      by (simp only: pass_step [OF nx] set_append)
    with rest first show ?thesis by blast
  qed
qed

lemma pending_query_length:
  "length (pending_query c n rows) = min n (pending_count c rows)"
  by (simp add: pending_query_def pending_count_def min.commute)

lemma pending_query_sorted: "sorted (map modified_on (pending_query c n rows))"
proof -
  have "map modified_on (pending_query c n rows)
        = take n (map modified_on (sort_key modified_on (filter (is_pending c) rows)))"
    by (simp add: pending_query_def take_map)
  then show ?thesis by simp
qed

lemma pending_query_oldest:
  assumes "r \<in> set (pending_query c n rows)" "r' \<in> set rows" "is_pending c r'"
    "r' \<notin> set (pending_query c n rows)"
  shows "modified_on r \<le> modified_on r'"
proof -
  let ?xs = "sort_key modified_on (filter (is_pending c) rows)"
  have "sorted (map modified_on (take n ?xs @ drop n ?xs))" by simp
  then have ord: "\<forall>x \<in> set (take n ?xs). \<forall>y \<in> set (drop n ?xs). modified_on x \<le> modified_on y"
    unfolding map_append sorted_append by auto
  from assms(2,3) have "r' \<in> set (take n ?xs @ drop n ?xs)" by simp
  with assms(4) have "r' \<in> set (drop n ?xs)"
    unfolding set_append pending_query_def by blast
  with ord assms(1) show ?thesis by (simp add: pending_query_def)
qed

lemma selected_rows:
  assumes "distinct (map up_id rows)"
  shows "filter (\<lambda>r. up_id r \<in> set (map up_id (pending_query c n rows))) rows
         = filter (\<lambda>r. r \<in> set (pending_query c n rows)) rows"
proof (rule filter_cong [OF refl])
  fix r assume "r \<in> set rows"
  moreover have "set (pending_query c n rows) \<subseteq> set rows"
    using set_pending_query [of c n rows] by blast
  ultimately show "(up_id r \<in> set (map up_id (pending_query c n rows)))
                   = (r \<in> set (pending_query c n rows))"
    using assms by (intro id_in_selection)
qed


lemma pending_query_distinct:
  assumes "distinct (map up_id rows)"
  shows "distinct (pending_query c n rows)"
proof -
  from assms have "distinct rows" by (simp add: distinct_map)
  then show ?thesis by (simp add: pending_query_def)
qed

lemma batch_length:
  assumes "distinct (map up_id rows)"
  shows "length (filter (\<lambda>r. r \<in> set (pending_query c n rows)) rows)
         = length (pending_query c n rows)"
proof -
  from assms have d: "distinct rows" by (simp add: distinct_map)
  have sub: "set (pending_query c n rows) \<subseteq> set rows"
    using set_pending_query [of c n rows] by blast
  have "length (filter (\<lambda>r. r \<in> set (pending_query c n rows)) rows)
        = card ({r. r \<in> set (pending_query c n rows)} \<inter> set rows)"
    using d by (rule distinct_length_filter)
  also have "{r. r \<in> set (pending_query c n rows)} \<inter> set rows = set (pending_query c n rows)"
    using sub by blast
  also have "card (set (pending_query c n rows)) = length (pending_query c n rows)"
    using pending_query_distinct [OF assms] by (rule distinct_card)
  finally show ?thesis .
qed

text \<open>
  C5. For every catalog and every table with unique primary keys, a call of the batch
  fetcher's next() selects the rows of the catalog with status pending, oldest
  modification first, at most batch_size of them (all of them when fewer are pending);
  it transitions exactly the selected rows to processing and returns them, as re-read,
  with their remote product identifiers; it signals exhaustion exactly when the
  selection is empty; and over the repeated calls of one pass no row is returned twice,
  every returned row was pending at the start, and with a positive batch size every
  initially pending row is returned.
\<close>

theorem fetcher_next_batches:
  assumes "distinct (map up_id rows)"
  shows "(fetcher_next c n rows = None) = (pending_query c n rows = [])
   \<and> length (pending_query c n rows) = min n (pending_count c rows)
   \<and> (\<forall>r \<in> set (pending_query c n rows). r \<in> set rows \<and> catalog_ref r = c \<and> status r = Pending)
   \<and> sorted (map modified_on (pending_query c n rows))
   \<and> (\<forall>r \<in> set (pending_query c n rows). \<forall>r' \<in> set rows.
         is_pending c r' \<and> r' \<notin> set (pending_query c n rows) \<longrightarrow> modified_on r \<le> modified_on r')
   \<and> (\<forall>ps ids rows'. fetcher_next c n rows = Some (ps, ids, rows') \<longrightarrow>
         rows' = map (\<lambda>r. if r \<in> set (pending_query c n rows) then r\<lparr>status := Processing\<rparr> else r) rows
         \<and> ps = map (\<lambda>r. r\<lparr>status := Processing\<rparr>)
                    (filter (\<lambda>r. r \<in> set (pending_query c n rows)) rows)
         \<and> length ps = length (pending_query c n rows)
         \<and> ids = map facebook_product_id ps)
   \<and> distinct (pass_ids (fetch_pass sent c n k rows))
   \<and> set (pass_ids (fetch_pass sent c n k rows)) \<subseteq> up_id ` {r \<in> set rows. is_pending c r}
   \<and> (0 < n \<longrightarrow> set (pass_ids (fetch_pass sent c n k rows)) = up_id ` {r \<in> set rows. is_pending c r})"
proof -
  let ?sel = "pending_query c n rows"
  have a: "(fetcher_next c n rows = None) = (?sel = [])" by (rule fetcher_next_None)
  have b: "length ?sel = min n (pending_count c rows)" by (rule pending_query_length)
  have c: "\<forall>r \<in> set ?sel. r \<in> set rows \<and> catalog_ref r = c \<and> status r = Pending"
    using set_pending_query [of c n rows] by (auto simp: is_pending_def)
  have d: "sorted (map modified_on ?sel)" by (rule pending_query_sorted)
  have e: "\<forall>r \<in> set ?sel. \<forall>r' \<in> set rows.
         is_pending c r' \<and> r' \<notin> set ?sel \<longrightarrow> modified_on r \<le> modified_on r'"
    using pending_query_oldest by blast
  have f: "rows' = map (\<lambda>r. if r \<in> set ?sel then r\<lparr>status := Processing\<rparr> else r) rows
         \<and> ps = map (\<lambda>r. r\<lparr>status := Processing\<rparr>) (filter (\<lambda>r. r \<in> set ?sel) rows)
         \<and> length ps = length ?sel
         \<and> ids = map facebook_product_id ps"
    if nx: "fetcher_next c n rows = Some (ps, ids, rows')" for ps ids rows'
  proof -
    have sub: "set ?sel \<subseteq> set rows" using set_pending_query [of c n rows] by blast
    have "rows' = map (\<lambda>r. if up_id r \<in> set (map up_id ?sel) then r\<lparr>status := Processing\<rparr> else r) rows"
      using fetcher_next_Some(1) [OF nx] by (simp add: update_status_def)
    also have "\<dots> = map (\<lambda>r. if r \<in> set ?sel then r\<lparr>status := Processing\<rparr> else r) rows"
    proof (rule map_cong [OF refl])
      fix r assume "r \<in> set rows"
      with assms sub have "(up_id r \<in> set (map up_id ?sel)) = (r \<in> set ?sel)"
        by (intro id_in_selection)
      then show "(if up_id r \<in> set (map up_id ?sel) then r\<lparr>status := Processing\<rparr> else r)
                 = (if r \<in> set ?sel then r\<lparr>status := Processing\<rparr> else r)" by simp
    qed
    finally have 1: "rows' = map (\<lambda>r. if r \<in> set ?sel then r\<lparr>status := Processing\<rparr> else r) rows" .
    have 2: "ps = map (\<lambda>r. r\<lparr>status := Processing\<rparr>) (filter (\<lambda>r. r \<in> set ?sel) rows)"
      using fetcher_next_Some(2) [OF nx] by (simp only: selected_rows [OF assms])
    have 3: "length ps = length ?sel"
      by (simp only: 2 length_map batch_length [OF assms])
    from 1 2 3 fetcher_next_Some(3) [OF nx] show ?thesis by blast
  qed
  have g: "distinct (pass_ids (fetch_pass sent c n k rows))"
    using assms by (rule pass_ids_distinct)
  have h: "set (pass_ids (fetch_pass sent c n k rows)) \<subseteq> up_id ` {r \<in> set rows. is_pending c r}"
    by (rule pass_ids_subset)
  have i: "0 < n \<longrightarrow> set (pass_ids (fetch_pass sent c n k rows)) = up_id ` {r \<in> set rows. is_pending c r}"
    using pass_ids_cover by blast
  from a b c d e f g h i show ?thesis by blast
qed

theorem fetcher_next_batches_witness:
  "distinct (map up_id [p1, p2])
   \<and> fetcher_next 7 1 [p1, p2]
       = Some ([p1\<lparr>status := Processing\<rparr>], [''p1''], [p1\<lparr>status := Processing\<rparr>, p2])
   \<and> fetcher_next 7 1 [p1\<lparr>status := Error\<rparr>, p2]
       = Some ([p2\<lparr>status := Processing\<rparr>], [''p2''], [p1\<lparr>status := Error\<rparr>, p2\<lparr>status := Processing\<rparr>])
   \<and> fetcher_next 7 1 [p1\<lparr>status := Error\<rparr>, p2\<lparr>status := Success\<rparr>] = None
   \<and> pass_ids (fetch_pass (\<lambda>k. 0 < k) 7 1 0 [p1, p2]) = [1, 2]
   \<and> distinct (pass_ids (fetch_pass (\<lambda>k. 0 < k) 7 1 0 [p1, p2]))"
proof -
  have d: "distinct (map up_id [p1, p2])" by code_simp
  have n1: "fetcher_next 7 1 [p1, p2]
       = Some ([p1\<lparr>status := Processing\<rparr>], [''p1''], [p1\<lparr>status := Processing\<rparr>, p2])"
    by code_simp
  have n2: "fetcher_next 7 1 [p1\<lparr>status := Error\<rparr>, p2]
       = Some ([p2\<lparr>status := Processing\<rparr>], [''p2''], [p1\<lparr>status := Error\<rparr>, p2\<lparr>status := Processing\<rparr>])"
    by code_simp
  have n3: "fetcher_next 7 1 [p1\<lparr>status := Error\<rparr>, p2\<lparr>status := Success\<rparr>] = None"
    by code_simp
  have ids: "pass_ids (fetch_pass (\<lambda>k. 0 < k) 7 1 0 [p1, p2]) = [1, 2]"
    by code_simp
  from fetcher_next_batches [OF d, of 7 1 "\<lambda>k. 0 < k" 0] d n1 n2 n3 ids
  show ?thesis by simp
qed

subsection \<open>Status transitions\<close>

text \<open>
  C3 (as stated, refuted). The update of the batch fetcher is not conditioned on the
  prior status: a row that another worker has claimed and marked success between the
  fetcher's read of the pending keys and its update is set back to processing.
\<close>

theorem fetcher_update_unconditional_counterexample:
  "status (other_worker_sends_p1 [p1, p2] ! 0) = Success
   \<and> fetcher_next_interleaved other_worker_sends_p1 7 1 [p1, p2]
       = Some ([p1\<lparr>status := Processing\<rparr>], [''p1''], [p1\<lparr>status := Processing\<rparr>, p2])"
  by code_simp


lemma update_status_nth:
  "i < length rows \<Longrightarrow>
     update_status P new rows ! i = (if P (rows ! i) then (rows ! i)\<lparr>status := new\<rparr> else rows ! i)"
  by (simp add: update_status_def)

lemma fetcher_next_changed_rows:
  assumes d: "distinct (map up_id rows)"
    and nx: "fetcher_next c n rows = Some (ps, fids, rows')"
    and i: "i < length rows"
    and ch: "rows' ! i \<noteq> rows ! i"
  shows "is_pending c (rows ! i) \<and> rows' ! i = (rows ! i)\<lparr>status := Processing\<rparr>"
proof -
  let ?sel = "pending_query c n rows"
  have r: "rows' ! i = (if up_id (rows ! i) \<in> set (map up_id ?sel)
                        then (rows ! i)\<lparr>status := Processing\<rparr> else rows ! i)"
    using i by (simp only: fetcher_next_Some(1) [OF nx] update_status_nth)
  with ch have "up_id (rows ! i) \<in> set (map up_id ?sel)" by (auto split: if_splits)
  moreover have "set ?sel \<subseteq> set rows" using set_pending_query [of c n rows] by blast
  moreover from i have "rows ! i \<in> set rows" by simp
  ultimately have "rows ! i \<in> set ?sel" using d by (simp only: id_in_selection)
  with set_pending_query [of c n rows] have "is_pending c (rows ! i)" by blast
  moreover from r \<open>up_id (rows ! i) \<in> set (map up_id ?sel)\<close>
  have "rows' ! i = (rows ! i)\<lparr>status := Processing\<rparr>" by simp
  ultimately show ?thesis by simp
qed

text \<open>
  C3 (amended). The success and error transitions are bulk updates conditioned on the
  remote identifiers of the batch and on the prior status processing: a row that is
  not processing is never changed by them. The transition to processing is a bulk
  update conditioned on the primary keys read from the pending query only: it changes
  exactly the rows with those keys; when nothing else writes between the read and the
  update (primary keys unique), every row it changes was a pending row of the catalog.
\<close>

theorem status_updates_scoped:
  assumes "distinct (map up_id rows)"
  shows "(\<forall>i < length rows. mark_products_as_sent fids rows ! i
            = (if facebook_product_id (rows ! i) \<in> set fids \<and> status (rows ! i) = Processing
               then (rows ! i)\<lparr>status := Success\<rparr> else rows ! i))
   \<and> (\<forall>i < length rows. mark_products_as_error fids rows ! i
            = (if facebook_product_id (rows ! i) \<in> set fids \<and> status (rows ! i) = Processing
               then (rows ! i)\<lparr>status := Error\<rparr> else rows ! i))
   \<and> (\<forall>i < length rows. claim_batch pids rows ! i
            = (if up_id (rows ! i) \<in> set pids then (rows ! i)\<lparr>status := Processing\<rparr> else rows ! i))
   \<and> (\<forall>ps ids rows'. fetcher_next c n rows = Some (ps, ids, rows') \<longrightarrow>
         length rows' = length rows
         \<and> (\<forall>i < length rows. rows' ! i \<noteq> rows ! i \<longrightarrow>
               status (rows ! i) = Pending \<and> catalog_ref (rows ! i) = c
               \<and> rows' ! i = (rows ! i)\<lparr>status := Processing\<rparr>))"
proof -
  have a: "\<forall>i < length rows. mark_products_as_sent fids rows ! i
            = (if facebook_product_id (rows ! i) \<in> set fids \<and> status (rows ! i) = Processing
               then (rows ! i)\<lparr>status := Success\<rparr> else rows ! i)"
    by (simp add: mark_products_as_sent_def update_status_nth)
  have b: "\<forall>i < length rows. mark_products_as_error fids rows ! i
            = (if facebook_product_id (rows ! i) \<in> set fids \<and> status (rows ! i) = Processing
               then (rows ! i)\<lparr>status := Error\<rparr> else rows ! i)"
    by (simp add: mark_products_as_error_def update_status_nth)
  have c: "\<forall>i < length rows. claim_batch pids rows ! i
            = (if up_id (rows ! i) \<in> set pids then (rows ! i)\<lparr>status := Processing\<rparr> else rows ! i)"
    by (simp add: claim_batch_def update_status_nth)
  have d: "length rows' = length rows
         \<and> (\<forall>i < length rows. rows' ! i \<noteq> rows ! i \<longrightarrow>
               status (rows ! i) = Pending \<and> catalog_ref (rows ! i) = c
               \<and> rows' ! i = (rows ! i)\<lparr>status := Processing\<rparr>)"
    if nx: "fetcher_next c n rows = Some (ps, ids, rows')" for ps ids rows'
  proof -
    have "length rows' = length rows"
      by (simp add: fetcher_next_Some(1) [OF nx] update_status_def)
    moreover have "\<forall>i < length rows. rows' ! i \<noteq> rows ! i \<longrightarrow>
               status (rows ! i) = Pending \<and> catalog_ref (rows ! i) = c
               \<and> rows' ! i = (rows ! i)\<lparr>status := Processing\<rparr>"
      using fetcher_next_changed_rows [OF assms nx] by (auto simp: is_pending_def)
    ultimately show ?thesis by simp
  qed
  from a b c d show ?thesis by blast
qed

theorem status_updates_scoped_witness:
  "distinct (map up_id [p1, p2])
   \<and> fetcher_next 7 1 [p1, p2]
       = Some ([p1\<lparr>status := Processing\<rparr>], [''p1''], [p1\<lparr>status := Processing\<rparr>, p2])
   \<and> status ([p1, p2] ! 0) = Pending
   \<and> mark_products_as_sent [''p1'', ''p2''] [p1\<lparr>status := Processing\<rparr>, p2]
       = [p1\<lparr>status := Success\<rparr>, p2]
   \<and> mark_products_as_error [''p1'', ''p2''] [p1\<lparr>status := Success\<rparr>, p2]
       = [p1\<lparr>status := Success\<rparr>, p2]"
proof -
  have d: "distinct (map up_id [p1, p2])" by code_simp
  have n1: "fetcher_next 7 1 [p1, p2]
       = Some ([p1\<lparr>status := Processing\<rparr>], [''p1''], [p1\<lparr>status := Processing\<rparr>, p2])"
    by code_simp
  have ne: "[p1\<lparr>status := Processing\<rparr>, p2] ! 0 \<noteq> [p1, p2] ! 0" by code_simp
  have m1: "mark_products_as_sent [''p1'', ''p2''] [p1\<lparr>status := Processing\<rparr>, p2]
       = [p1\<lparr>status := Success\<rparr>, p2]" by code_simp
  have m2: "mark_products_as_error [''p1'', ''p2''] [p1\<lparr>status := Success\<rparr>, p2]
       = [p1\<lparr>status := Success\<rparr>, p2]" by code_simp
  from status_updates_scoped [OF d, of "[]" "[]" 7 1] n1 ne
  have "status ([p1, p2] ! 0) = Pending" by auto
  with d n1 m1 m2 show ?thesis by simp
qed

subsection \<open>Upload loop\<close>

text \<open>
  C4 (evaluated at the failing input). When the first call of next() raises, before
  any batch identifiers are bound, the handler of process_and_upload reads the unbound
  variable products_ids: for every catalog, batch size and state the call ends with
  UnboundLocalError instead of returning, the table and the log unchanged; so it does
  on a table with two pending rows.
\<close>

theorem process_and_upload_first_fetch_unbound:
  "process_and_upload (env\<lparr>fetch_fault := db_down\<rparr>) catalog batch_size st
     = (st, Some (UnboundLocalError ''products_ids''))
   \<and> process_and_upload first_fetch_fails 7 1 ([p1, p2], [])
     = (([p1, p2], []), Some (UnboundLocalError ''products_ids''))"
proof -
  have loop: "upload_loop (env\<lparr>fetch_fault := db_down\<rparr>) catalog batch_size 0 None st
        = (st, None, Some (ExternalError ''database unavailable''))"
    by (subst upload_loop.simps) (simp add: db_down_def)
  have gen: "process_and_upload (env\<lparr>fetch_fault := db_down\<rparr>) catalog batch_size st
     = (st, Some (UnboundLocalError ''products_ids''))"
    by (simp add: process_and_upload_def loop)
  have inst: "process_and_upload first_fetch_fails 7 1 ([p1, p2], [])
     = (([p1, p2], []), Some (UnboundLocalError ''products_ids''))"
    by code_simp
  from gen inst show ?thesis by (rule conjI)
qed

subsection \<open>Admission\<close>

text \<open>
  C6. By-seller admission raises an error, and dispatches no job, whenever the
  initial_sync_completed flag is false (falsy or missing) or the connected_catalog flag
  is not True. Once the earlier checks have found the linked catalog: a false
  initial_sync_completed raises "Initial synchronization not completed."; with
  initial_sync_completed true and connected_catalog True the request needs at least one
  ProductFeed of the catalog exactly when use_sync_v2 is False, and is admitted, the job
  dispatched, whatever feeds exist when use_sync_v2 is not False; every rejection by
  these checks is a ValueError.
\<close>

theorem by_seller_admission:
  "((\<not> truthy (config_get va ''initial_sync_completed'' (PBool False))
       \<or> config_get va ''connected_catalog'' PNone \<noteq> PBool True)
      \<longrightarrow> (\<exists>e. start_insertion_by_seller d (Some va) sellers = Inl e))
   \<and> (admit_by_seller d (Some va) sellers = Inr (va, credentials, c) \<longrightarrow>
        (\<not> truthy (config_get va ''initial_sync_completed'' (PBool False))
           \<longrightarrow> start_insertion_by_seller d (Some va) sellers
                 = Inl (ValueError ''Initial synchronization not completed.''))
        \<and> (truthy (config_get va ''initial_sync_completed'' (PBool False))
             \<and> config_get va ''connected_catalog'' PNone = PBool True \<longrightarrow>
             (use_sync_v2 va = PBool False \<longrightarrow>
                (catalog_feeds d c = [] \<longrightarrow> start_insertion_by_seller d (Some va) sellers
                     = Inl (ValueError ''At least 1 feed created is required''))
                \<and> (catalog_feeds d c \<noteq> [] \<longrightarrow> start_insertion_by_seller d (Some va) sellers
                     = Inr (send_task credentials c (Some sellers))))
             \<and> (use_sync_v2 va \<noteq> PBool False \<longrightarrow>
                   start_insertion_by_seller d (Some va) sellers
                     = Inr (send_task credentials c (Some sellers))))
        \<and> (truthy (config_get va ''initial_sync_completed'' (PBool False))
             \<and> config_get va ''connected_catalog'' PNone \<noteq> PBool True \<longrightarrow>
             (\<exists>m. start_insertion_by_seller d (Some va) sellers = Inl (ValueError m))))"
proof -
  have rej: "\<exists>e. start_insertion_by_seller d (Some va) sellers = Inl e"
    if "\<not> truthy (config_get va ''initial_sync_completed'' (PBool False))
        \<or> config_get va ''connected_catalog'' PNone \<noteq> PBool True"
  proof (cases "admit_by_seller d (Some va) sellers")
    case (Inl e)
    then show ?thesis by (simp add: start_insertion_by_seller_def)
  next
    case (Inr t)
    then obtain va' cr c' where t: "t = (va', cr, c')" by (cases t) auto
    with Inr have "va' = va"
      by (auto simp: admit_by_seller_def split: if_splits sum.splits)
    with Inr t that show ?thesis
      by (auto simp: start_insertion_by_seller_def validate_sync_status_def
                     validate_connected_catalog_flag_def Let_def split: option.splits)
  qed
  have adm: "admit_by_seller d (Some va) sellers = Inr (va, credentials, c) \<Longrightarrow>
        (\<not> truthy (config_get va ''initial_sync_completed'' (PBool False))
           \<longrightarrow> start_insertion_by_seller d (Some va) sellers
                 = Inl (ValueError ''Initial synchronization not completed.''))
        \<and> (truthy (config_get va ''initial_sync_completed'' (PBool False))
             \<and> config_get va ''connected_catalog'' PNone = PBool True \<longrightarrow>
             (use_sync_v2 va = PBool False \<longrightarrow>
                (catalog_feeds d c = [] \<longrightarrow> start_insertion_by_seller d (Some va) sellers
                     = Inl (ValueError ''At least 1 feed created is required''))
                \<and> (catalog_feeds d c \<noteq> [] \<longrightarrow> start_insertion_by_seller d (Some va) sellers
                     = Inr (send_task credentials c (Some sellers))))
             \<and> (use_sync_v2 va \<noteq> PBool False \<longrightarrow>
                   start_insertion_by_seller d (Some va) sellers
                     = Inr (send_task credentials c (Some sellers))))
        \<and> (truthy (config_get va ''initial_sync_completed'' (PBool False))
             \<and> config_get va ''connected_catalog'' PNone \<noteq> PBool True \<longrightarrow>
             (\<exists>m. start_insertion_by_seller d (Some va) sellers = Inl (ValueError m)))"
    by (simp add: start_insertion_by_seller_def validate_sync_status_def
                   validate_connected_catalog_flag_def validate_catalog_feed_def first_def
                   Let_def split: list.splits)
  from rej adm show ?thesis by blast
qed


theorem by_seller_admission_witness:
  "start_insertion_by_seller linked_db (Some store_app) [''7'']
     = Inr (send_task store_credentials store_catalog (Some [''7'']))
   \<and> start_insertion_by_seller linked_db (Some unsynced_app) [''7'']
     = Inl (ValueError ''Initial synchronization not completed.'')
   \<and> start_insertion_by_seller linked_db (Some legacy_app) [''7'']
     = Inl (ValueError ''At least 1 feed created is required'')"
proof -
  have a1: "admit_by_seller linked_db (Some store_app) [''7'']
            = Inr (store_app, store_credentials, store_catalog)" by code_simp
  have a2: "admit_by_seller linked_db (Some unsynced_app) [''7'']
            = Inr (unsynced_app, store_credentials, store_catalog)" by code_simp
  have a3: "admit_by_seller linked_db (Some legacy_app) [''7'']
            = Inr (legacy_app, store_credentials, store_catalog)" by code_simp
  have f1: "truthy (config_get store_app ''initial_sync_completed'' (PBool False))"
    and f2: "config_get store_app ''connected_catalog'' PNone = PBool True"
    and f3: "use_sync_v2 store_app \<noteq> PBool False" by code_simp+
  have g1: "\<not> truthy (config_get unsynced_app ''initial_sync_completed'' (PBool False))"
    by code_simp
  have h1: "truthy (config_get legacy_app ''initial_sync_completed'' (PBool False))"
    and h2: "config_get legacy_app ''connected_catalog'' PNone = PBool True"
    and h3: "use_sync_v2 legacy_app = PBool False"
    and h4: "catalog_feeds linked_db store_catalog = []" by code_simp+
  from by_seller_admission [of store_app linked_db "[''7'']" store_credentials store_catalog]
    a1 f1 f2 f3
  have 1: "start_insertion_by_seller linked_db (Some store_app) [''7'']
     = Inr (send_task store_credentials store_catalog (Some [''7'']))" by blast
  from by_seller_admission [of unsynced_app linked_db "[''7'']" store_credentials store_catalog]
    a2 g1
  have 2: "start_insertion_by_seller linked_db (Some unsynced_app) [''7'']
     = Inl (ValueError ''Initial synchronization not completed.'')" by blast
  from by_seller_admission [of legacy_app linked_db "[''7'']" store_credentials store_catalog]
    a3 h1 h2 h3 h4
  have 3: "start_insertion_by_seller linked_db (Some legacy_app) [''7'']
     = Inl (ValueError ''At least 1 feed created is required'')" by blast
  from 1 2 3 show ?thesis by blast
qed

text \<open>
  C8 (evaluated at the failing input). The flag is saved only if it is not already
  True and the catalog is linked only if it is not already linked, as the claim says.
  But \<open>_get_or_sync_catalog\<close> starts by importing a name that the tasks module does
  not define: it raises ImportError at every call, so first-insertion admission never
  returns; on a state where the target state already holds, where the claim promises
  a silent no-op, it raises ImportError.
\<close>

theorem first_insertion_import_error:
  "get_or_sync_catalog sync wpp cid d = Inl import_error
   \<and> (\<exists>e. first_product_insert_with_catalog sync va cid sellers d = Inl e)
   \<and> (target_state va cid d
        \<longrightarrow> first_product_insert_with_catalog sync va cid sellers d = Inl import_error)
   \<and> (config_get va ''connected_catalog'' PNone = PBool True
        \<longrightarrow> update_app_connected_catalog_flag va d = Inr (va, d))
   \<and> (cat_vtex_app c \<noteq> None \<longrightarrow> link_catalog_to_vtex_app_if_needed c va d = d)"
proof -
  have imp: "import_from_tasks ''FacebookCatalogSyncService'' = Some import_error"
    by (simp add: import_from_tasks_def tasks_module_names_def import_error_def)
  have g: "get_or_sync_catalog sync wpp' cid d = Inl import_error" for wpp'
    by (simp add: get_or_sync_catalog_def imp)
  have never: "\<exists>e. first_product_insert_with_catalog sync va cid sellers d = Inl e"
    by (simp add: first_product_insert_with_catalog_def g split: sum.splits)
  have tgt: "first_product_insert_with_catalog sync va cid sellers d = Inl import_error"
    if "target_state va cid d"
  proof -
    from that obtain w where w: "get_wpp_cloud_uuid va = Inr w"
      by (cases "get_wpp_cloud_uuid va") (auto simp: target_state_def lookup_catalog_def)
    from that w obtain cr where cr: "get_credentials va = Inr cr"
      by (cases "get_credentials va") (auto simp: target_state_def lookup_catalog_def)
    from that w cr obtain wp where wp: "get_wpp_cloud None d w = Inr wp"
      by (cases "get_wpp_cloud None d w") (auto simp: target_state_def lookup_catalog_def)
    from w cr wp show ?thesis
      by (simp add: first_product_insert_with_catalog_def g)
  qed
  have fl: "config_get va ''connected_catalog'' PNone = PBool True
        \<longrightarrow> update_app_connected_catalog_flag va d = Inr (va, d)"
    by (simp add: update_app_connected_catalog_flag_def)
  have ln: "cat_vtex_app c \<noteq> None \<longrightarrow> link_catalog_to_vtex_app_if_needed c va d = d"
    by (auto simp: link_catalog_to_vtex_app_if_needed_def)
  from g never tgt fl ln show ?thesis by blast
qed

theorem first_insertion_import_error_witness:
  "target_state store_app ''101'' admitted_db
   \<and> first_product_insert_with_catalog no_sync store_app ''101'' None admitted_db = Inl import_error
   \<and> update_app_connected_catalog_flag store_app admitted_db = Inr (store_app, admitted_db)
   \<and> link_catalog_to_vtex_app_if_needed store_catalog store_app admitted_db = admitted_db"
proof -
  have ts: "target_state store_app ''101'' admitted_db" by code_simp
  have fl: "config_get store_app ''connected_catalog'' PNone = PBool True" by code_simp
  have ln: "cat_vtex_app store_catalog \<noteq> None" by code_simp
  from first_insertion_import_error [of no_sync _ "''101''" admitted_db store_app None store_catalog]
    ts fl ln
  show ?thesis by blast
qed

subsection \<open>Catalog reconciliation\<close>

lemma trace_emit: "trace (emit e st) = trace st @ [e]"
  by (simp add: emit_def)

lemma prefix_list_task: "prefix (trace st) (trace (snd (list_all_catalogs_task env a st)))"
  by (simp add: list_all_catalogs_task_def Let_def trace_emit split: sum.splits)

lemma prefix_update_task: "prefix (trace st) (trace (update_catalogs_on_flows_task env a cs st))"
  by (simp add: update_catalogs_on_flows_task_def Let_def trace_emit split: option.splits)

lemma prefix_details_task: "prefix (trace st) (trace (snd (get_catalog_details_task env cid st)))"
  by (simp add: get_catalog_details_task_def trace_emit split: sum.splits option.splits)

lemma prefix_create_task: "prefix (trace st) (trace (create_catalog_task env a details st))"
  by (simp add: create_catalog_task_def trace_emit split: sum.splits)

lemma prefix_delete_task: "prefix (trace st) (trace (delete_catalogs_task env a ids st))"
  by (simp add: delete_catalogs_task_def trace_emit split: option.splits)

lemma prefix_create_missing: "prefix (trace st) (trace (fst (create_missing env a ids st)))"
proof (induction ids arbitrary: st)
  case Nil
  show ?case by simp
next
  case (Cons cid ids)
  obtain r st1 where g: "get_catalog_details_task env cid st = (r, st1)"
    by (cases "get_catalog_details_task env cid st") auto
  with prefix_details_task [of st env cid] have p1: "prefix (trace st) (trace st1)" by simp
  show ?case
  proof (cases r)
    case (Inl e)
    with g p1 show ?thesis by simp
  next
    case (Inr details)
    let ?st2 = "if truthy details then create_catalog_task env a details st1 else st1"
    have "prefix (trace st1) (trace ?st2)" by (simp add: prefix_create_task)
    with p1 have "prefix (trace st) (trace ?st2)" by (rule prefix_order.trans)
    also have "prefix (trace ?st2) (trace (fst (create_missing env a ids ?st2)))" by (rule Cons.IH)
    finally show ?thesis using g Inr by simp
  qed
qed

lemma sync_app_cases:
  obtains (skip) "\<not> is_configured a" "sync_app env a st = (st, None)"
  | (empty) ids cs st1 where "is_configured a"
      "list_all_catalogs_task env a st = ((ids, cs), st1)" "ids = []"
      "sync_app env a st = (st1, None)"
  | (diff) ids cs st1 to_create to_delete st3 r where "is_configured a"
      "list_all_catalogs_task env a st = ((ids, cs), st1)" "ids \<noteq> []"
      "create_missing env a to_create (update_catalogs_on_flows_task env a cs st1) = (st3, r)"
      "sync_app env a st
         = (case r of Some e \<Rightarrow> (st3, Some e)
            | None \<Rightarrow> (if to_delete \<noteq> [] then delete_catalogs_task env a to_delete st3 else st3, None))"
proof (cases "is_configured a")
  case False
  then have "sync_app env a st = (st, None)"
    by (auto simp: sync_app_def is_configured_def Let_def)
  with False show ?thesis by (rule skip)
next
  case True
  obtain ids cs st1 where l: "list_all_catalogs_task env a st = ((ids, cs), st1)"
    by (cases "list_all_catalogs_task env a st") auto
  show ?thesis
  proof (cases "ids = []")
    case e: True
    with True l have "sync_app env a st = (st1, None)"
      by (simp add: sync_app_def is_configured_def Let_def)
    with True l e show ?thesis by (rule empty)
  next
    case ne: False
    let ?local = "map cat_facebook_catalog_id (filter (\<lambda>c. cat_app c = app_uuid a) (catalogs (sdb st)))"
    let ?tc = "remdups (filter (\<lambda>i. i \<notin> set ?local) ids)"
    let ?td = "remdups (filter (\<lambda>i. i \<notin> set ids) ?local)"
    obtain st3 r where c: "create_missing env a ?tc (update_catalogs_on_flows_task env a cs st1) = (st3, r)"
      by (cases "create_missing env a ?tc (update_catalogs_on_flows_task env a cs st1)") auto
    from True l ne c have "sync_app env a st
         = (case r of Some e \<Rightarrow> (st3, Some e)
            | None \<Rightarrow> (if ?td \<noteq> [] then delete_catalogs_task env a ?td st3 else st3, None))"
      by (cases r) (simp_all add: sync_app_def is_configured_def Let_def)
    with True l ne c show ?thesis by (rule diff)
  qed
qed


lemma prefix_sync_app: "prefix (trace st) (trace (fst (sync_app env a st)))"
proof (cases rule: sync_app_cases [of a env st])
  case skip
  then show ?thesis by simp
next
  case (empty ids cs st1)
  with prefix_list_task [of st env a] show ?thesis by simp
next
  case (diff ids cs st1 to_create to_delete st3 r)
  from prefix_list_task [of st env a] diff(2) have "prefix (trace st) (trace st1)" by simp
  also have "prefix (trace st1) (trace (update_catalogs_on_flows_task env a cs st1))"
    by (rule prefix_update_task)
  also from prefix_create_missing [of "update_catalogs_on_flows_task env a cs st1" env a to_create] diff(4)
  have "prefix (trace (update_catalogs_on_flows_task env a cs st1)) (trace st3)" by simp
  finally have p3: "prefix (trace st) (trace st3)" .
  show ?thesis
  proof (cases r)
    case (Some e)
    with diff(5) p3 show ?thesis by simp
  next
    case None
    have "prefix (trace st3)
            (trace (if to_delete \<noteq> [] then delete_catalogs_task env a to_delete st3 else st3))"
      by (simp add: prefix_delete_task)
    with p3 have "prefix (trace st)
            (trace (if to_delete \<noteq> [] then delete_catalogs_task env a to_delete st3 else st3))"
      by (rule prefix_order.trans)
    with None diff(5) show ?thesis by simp
  qed
qed

lemma prefix_sync_apps: "prefix (trace st) (trace (fst (sync_apps env as st)))"
proof (induction as arbitrary: st)
  case Nil
  show ?case by simp
next
  case (Cons a as)
  obtain st' r where s: "sync_app env a st = (st', r)" by (cases "sync_app env a st") auto
  with prefix_sync_app [of st env a] have p: "prefix (trace st) (trace st')" by simp
  show ?case
  proof (cases r)
    case (Some e)
    with s p show ?thesis by simp
  next
    case None
    from p Cons.IH [of st'] have "prefix (trace st) (trace (fst (sync_apps env as st')))"
      by (rule prefix_order.trans)
    with s None show ?thesis by simp
  qed
qed

lemma create_missing_no_exc:
  assumes "\<forall>cid e. get_catalog_details env cid \<noteq> Inl e"
  shows "snd (create_missing env a ids st) = None"
proof (induction ids arbitrary: st)
  case Nil
  show ?case by simp
next
  case (Cons cid ids)
  from assms obtain details where "get_catalog_details env cid = Inr details"
    by (cases "get_catalog_details env cid") auto
  then have "get_catalog_details_task env cid st = (Inr details, st)"
    by (simp add: get_catalog_details_task_def)
  with Cons.IH show ?case by simp
qed

lemma sync_app_no_exc:
  assumes "\<forall>cid e. get_catalog_details env cid \<noteq> Inl e"
  shows "snd (sync_app env a st) = None"
proof (cases rule: sync_app_cases [of a env st])
  case skip
  then show ?thesis by simp
next
  case (empty ids cs st1)
  then show ?thesis by simp
next
  case (diff ids cs st1 to_create to_delete st3 r)
  from create_missing_no_exc [OF assms, of a to_create "update_catalogs_on_flows_task env a cs st1"]
    diff(4) have "r = None" by simp
  with diff(5) show ?thesis by simp
qed

lemma sync_apps_no_exc:
  assumes "\<forall>cid e. get_catalog_details env cid \<noteq> Inl e"
  shows "snd (sync_apps env as st) = None"
proof (induction as arbitrary: st)
  case Nil
  show ?case by simp
next
  case (Cons a as)
  obtain st' r where s: "sync_app env a st = (st', r)" by (cases "sync_app env a st") auto
  with sync_app_no_exc [OF assms, of a st] have "r = None" by simp
  with s Cons.IH [of st'] show ?case by simp
qed

lemma sync_app_lists:
  assumes "is_configured a"
  shows "ListCall (app_uuid a) \<in> set (trace (snd (list_all_catalogs_task env a st)))"
    and "ListCall (app_uuid a) \<in> set (trace (fst (sync_app env a st)))"
proof -
  show l: "ListCall (app_uuid a) \<in> set (trace (snd (list_all_catalogs_task env a st)))"
    by (simp add: list_all_catalogs_task_def Let_def trace_emit split: sum.splits)
  show "ListCall (app_uuid a) \<in> set (trace (fst (sync_app env a st)))"
  proof (cases rule: sync_app_cases [of a env st])
    case skip
    with assms show ?thesis by simp
  next
    case (empty ids cs st1)
    with l show ?thesis by simp
  next
    case (diff ids cs st1 to_create to_delete st3 r)
    let ?st2 = "update_catalogs_on_flows_task env a cs st1"
    from l diff(2) have "ListCall (app_uuid a) \<in> set (trace st1)" by simp
    with prefix_update_task [of st1 env a cs] have "ListCall (app_uuid a) \<in> set (trace ?st2)"
      using set_mono_prefix by blast
    with prefix_create_missing [of ?st2 env a to_create] diff(4)
    have in3: "ListCall (app_uuid a) \<in> set (trace st3)"
      using set_mono_prefix by fastforce
    show ?thesis
    proof (cases r)
      case (Some e)
      with diff(5) in3 show ?thesis by simp
    next
      case None
      from in3 prefix_delete_task [of st3 env a to_delete]
      have "ListCall (app_uuid a) \<in> set (trace (delete_catalogs_task env a to_delete st3))"
        using set_mono_prefix by blast
      with in3 None diff(5) show ?thesis by simp
    qed
  qed
qed

lemma sync_app_notifies:
  assumes "is_configured a"
    and "list_all_catalogs env (config_get a ''wa_business_id'' PNone) = Inr (ids, cs)"
    and "ids \<noteq> []"
  shows "FlowsUpdate (py_str_uuid (flow_object_uuid a)) cs \<in> set (trace (fst (sync_app env a st)))"
proof (cases rule: sync_app_cases [of a env st])
  case skip
  with assms show ?thesis by simp
next
  case (empty ids' cs' st1)
  with assms show ?thesis by (simp add: list_all_catalogs_task_def Let_def)
next
  case (diff ids' cs' st1 to_create to_delete st3 r)
  let ?ev = "FlowsUpdate (py_str_uuid (flow_object_uuid a)) cs"
  let ?st2 = "update_catalogs_on_flows_task env a cs' st1"
  from diff(2) assms(2) have "cs' = cs" by (simp add: list_all_catalogs_task_def Let_def)
  then have "?ev \<in> set (trace ?st2)"
    by (simp add: update_catalogs_on_flows_task_def Let_def trace_emit split: option.splits)
  with prefix_create_missing [of ?st2 env a to_create] diff(4)
  have in3: "?ev \<in> set (trace st3)"
    using set_mono_prefix by fastforce
  show ?thesis
  proof (cases r)
    case (Some e)
    with diff(5) in3 show ?thesis by simp
  next
    case None
    from in3 prefix_delete_task [of st3 env a to_delete]
    have "?ev \<in> set (trace (delete_catalogs_task env a to_delete st3))"
      using set_mono_prefix by blast
    with in3 None diff(5) show ?thesis by simp
  qed
qed

lemma sync_apps_keeps:
  assumes "\<forall>cid e. get_catalog_details env cid \<noteq> Inl e"
    and "a \<in> set as"
    and "\<And>st. ev \<in> set (trace (fst (sync_app env a st)))"
  shows "ev \<in> set (trace (fst (sync_apps env as st)))"
  using assms(2)
proof (induction as arbitrary: st)
  case Nil
  then show ?case by simp
next
  case (Cons b as)
  obtain st' r where s: "sync_app env b st = (st', r)" by (cases "sync_app env b st") auto
  with sync_app_no_exc [OF assms(1), of b st] have r: "r = None" by simp
  show ?case
  proof (cases "a = b")
    case True
    with assms(3) [of st] s have "ev \<in> set (trace st')" by simp
    with prefix_sync_apps [of st' env as] have "ev \<in> set (trace (fst (sync_apps env as st')))"
      using set_mono_prefix by blast
    with s r show ?thesis by simp
  next
    case False
    with Cons.prems have "a \<in> set as" by simp
    from Cons.IH [OF this, of st'] s r show ?thesis by simp
  qed
qed


text \<open>
  C1 (as stated, refuted). With two configured connections, when fetching the details
  of a catalog of the first one fails, the exception leaves the pass and the second
  connection is never processed.
\<close>

theorem details_failure_aborts_counterexample:
  "snd (sync_facebook_catalogs details_down_env False [cloud_app, second_cloud_app] empty_state)
     = Some provider_error
   \<and> ListCall ''w2''
       \<notin> set (trace (fst (sync_facebook_catalogs details_down_env False
                             [cloud_app, second_cloud_app] empty_state)))"
  by code_simp

lemma create_missing_raises:
  assumes "cid \<in> set ids" "get_catalog_details env cid = Inl e"
  shows "snd (create_missing env a ids st) \<noteq> None"
  using assms(1)
proof (induction ids arbitrary: st)
  case Nil
  then show ?case by simp
next
  case (Cons c ids)
  show ?case
  proof (cases "get_catalog_details env c")
    case (Inl e')
    then obtain e'' st1 where "get_catalog_details_task env c st = (Inl e'', st1)"
      by (cases "client_uuid env") (auto simp: get_catalog_details_task_def)
    then show ?thesis by simp
  next
    case (Inr details)
    with assms(2) have "c \<noteq> cid" by auto
    with Cons.prems have mem: "cid \<in> set ids" by simp
    from Inr have "get_catalog_details_task env c st = (Inr details, st)"
      by (simp add: get_catalog_details_task_def)
    with Cons.IH [OF mem] show ?thesis by simp
  qed
qed

lemma sync_app_raises:
  assumes "is_configured a"
    and "list_all_catalogs env (config_get a ''wa_business_id'' PNone) = Inr (ids, cs)"
    and "cid \<in> set ids" and "cid \<notin> set (local_catalog_ids a st)"
    and "get_catalog_details env cid = Inl e"
  shows "snd (sync_app env a st) \<noteq> None"
proof -
  let ?st1 = "emit (ListCall (app_uuid a)) st"
  let ?st2 = "update_catalogs_on_flows_task env a cs ?st1"
  let ?tc = "remdups (filter (\<lambda>i. i \<notin> set (local_catalog_ids a st)) ids)"
  from assms(3,4) have "cid \<in> set ?tc" by simp
  from create_missing_raises [OF this assms(5), of a ?st2]
  obtain st3 e' where c: "create_missing env a ?tc ?st2 = (st3, Some e')"
    by (cases "create_missing env a ?tc ?st2") auto
  from assms(3) have ne: "ids \<noteq> []" by auto
  from assms(2) have l: "list_all_catalogs_task env a st = ((ids, cs), ?st1)"
    by (simp add: list_all_catalogs_task_def Let_def)
  from assms(1) l ne c have "sync_app env a st = (st3, Some e')"
    by (simp add: sync_app_def is_configured_def Let_def local_catalog_ids_def)
  then show ?thesis by simp
qed

lemma sync_apps_abort:
  assumes "snd (sync_app env a st) \<noteq> None"
  shows "sync_apps env (a # rest) st = sync_app env a st"
proof -
  obtain st' r where s: "sync_app env a st = (st', r)" by (cases "sync_app env a st") auto
  with assms obtain e where "r = Some e" by auto
  with s show ?thesis by simp
qed

lemma sync_app_logs_listing_failure:
  assumes "is_configured a"
    and "list_all_catalogs env (config_get a ''wa_business_id'' PNone) = Inl e"
  shows "LogError ''Error on list all catalogs for App'' \<in> set (trace (fst (sync_app env a st)))"
  using assms
  by (simp add: sync_app_def is_configured_def list_all_catalogs_task_def Let_def trace_emit)


text \<open>
  C1 (amended). During one reconciliation pass a failure raised while fetching the
  listing, pushing to the flows service, creating a local catalog or deleting local
  catalogs is caught and logged, and the task returns; when no fetch of catalog
  details fails, no exception leaves the pass, the listing of every configured
  connection is requested and every failed listing is in the log. A failure raised
  while fetching the details of a catalog that is listed and not stored locally is
  raised again: it leaves the processing of that connection and ends the pass there,
  the remaining connections untouched.
\<close>

theorem sync_pass_continues:
  "((\<forall>cid e. get_catalog_details env cid \<noteq> Inl e) \<longrightarrow>
      snd (sync_facebook_catalogs env False as st) = None
      \<and> (\<forall>b \<in> set as. is_configured b \<longrightarrow>
            ListCall (app_uuid b) \<in> set (trace (fst (sync_facebook_catalogs env False as st)))))
   \<and> (list_all_catalogs env (config_get a ''wa_business_id'' PNone) = Inl e \<longrightarrow>
        list_all_catalogs_task env a st
          = (([], []), emit (LogError ''Error on list all catalogs for App'')
                         (emit (ListCall (app_uuid a)) st)))
   \<and> (update_catalogs env (py_str_uuid (flow_object_uuid a)) cs = Some e \<longrightarrow>
        update_catalogs_on_flows_task env a cs st
          = emit (LogError (''Error updating catalogs for App: '' @ get_extra_info (app_uuid a)))
              (emit (FlowsUpdate (py_str_uuid (flow_object_uuid a)) cs) st))
   \<and> (catalog_of_details env a details (catalogs (sdb st)) = Inl e \<longrightarrow>
        create_catalog_task env a details st
          = emit (LogError (''Error creating catalog for App: '' @ get_extra_info (app_uuid a))) st)
   \<and> (delete_fault env (app_uuid a) = Some e \<longrightarrow>
        delete_catalogs_task env a ids st
          = emit (LogError (''Error deleting catalogs for App: '' @ get_extra_info (app_uuid a))) st)
   \<and> (get_catalog_details env cid = Inl e \<longrightarrow>
        (\<exists>e'. fst (get_catalog_details_task env cid st) = Inl e'))
   \<and> (is_configured a
        \<and> list_all_catalogs env (config_get a ''wa_business_id'' PNone) = Inr (listed, cs)
        \<and> cid \<in> set listed \<and> cid \<notin> set (local_catalog_ids a st)
        \<and> get_catalog_details env cid = Inl e \<longrightarrow>
        snd (sync_app env a st) \<noteq> None
        \<and> sync_facebook_catalogs env False (a # rest) st = sync_app env a st)
   \<and> ((\<forall>cid e. get_catalog_details env cid \<noteq> Inl e) \<and> b \<in> set as \<and> is_configured b
        \<and> list_all_catalogs env (config_get b ''wa_business_id'' PNone) = Inl e \<longrightarrow>
        LogError ''Error on list all catalogs for App''
          \<in> set (trace (fst (sync_facebook_catalogs env False as st))))"
proof -
  have pass: "snd (sync_facebook_catalogs env False as st) = None
      \<and> (\<forall>b \<in> set as. is_configured b \<longrightarrow>
            ListCall (app_uuid b) \<in> set (trace (fst (sync_facebook_catalogs env False as st))))"
    if ok: "\<forall>cid e. get_catalog_details env cid \<noteq> Inl e"
  proof -
    have "snd (sync_apps env as st) = None" using ok by (rule sync_apps_no_exc)
    moreover have "ListCall (app_uuid b) \<in> set (trace (fst (sync_apps env as st)))"
      if "b \<in> set as" "is_configured b" for b
      using ok that(1) sync_app_lists(2) [OF that(2)] by (rule sync_apps_keeps)
    ultimately show ?thesis by (simp add: sync_facebook_catalogs_def)
  qed
  have l: "list_all_catalogs env (config_get a ''wa_business_id'' PNone) = Inl e \<longrightarrow>
        list_all_catalogs_task env a st
          = (([], []), emit (LogError ''Error on list all catalogs for App'')
                         (emit (ListCall (app_uuid a)) st))"
    by (simp add: list_all_catalogs_task_def Let_def)
  have u: "update_catalogs env (py_str_uuid (flow_object_uuid a)) cs = Some e \<longrightarrow>
        update_catalogs_on_flows_task env a cs st
          = emit (LogError (''Error updating catalogs for App: '' @ get_extra_info (app_uuid a)))
              (emit (FlowsUpdate (py_str_uuid (flow_object_uuid a)) cs) st)"
    by (simp add: update_catalogs_on_flows_task_def Let_def)
  have c: "catalog_of_details env a details (catalogs (sdb st)) = Inl e \<longrightarrow>
        create_catalog_task env a details st
          = emit (LogError (''Error creating catalog for App: '' @ get_extra_info (app_uuid a))) st"
    by (simp add: create_catalog_task_def)
  have d: "delete_fault env (app_uuid a) = Some e \<longrightarrow>
        delete_catalogs_task env a ids st
          = emit (LogError (''Error deleting catalogs for App: '' @ get_extra_info (app_uuid a))) st"
    by (simp add: delete_catalogs_task_def)
  have g: "get_catalog_details env cid = Inl e \<longrightarrow>
        (\<exists>e'. fst (get_catalog_details_task env cid st) = Inl e')"
    by (simp add: get_catalog_details_task_def split: option.splits)
  have ab: "snd (sync_app env a st) \<noteq> None
        \<and> sync_facebook_catalogs env False (a # rest) st = sync_app env a st"
    if "is_configured a"
      "list_all_catalogs env (config_get a ''wa_business_id'' PNone) = Inr (listed, cs)"
      "cid \<in> set listed" "cid \<notin> set (local_catalog_ids a st)"
      "get_catalog_details env cid = Inl e"
  proof -
    from that have r: "snd (sync_app env a st) \<noteq> None" by (rule sync_app_raises)
    from sync_apps_abort [OF r, of rest] r show ?thesis
      by (simp add: sync_facebook_catalogs_def)
  qed
  have lg: "LogError ''Error on list all catalogs for App''
          \<in> set (trace (fst (sync_facebook_catalogs env False as st)))"
    if ok: "\<forall>cid e. get_catalog_details env cid \<noteq> Inl e" and mem: "b \<in> set as"
      and cfg: "is_configured b"
      and f: "list_all_catalogs env (config_get b ''wa_business_id'' PNone) = Inl e"
  proof -
    have "LogError ''Error on list all catalogs for App'' \<in> set (trace (fst (sync_apps env as st)))"
      using ok mem sync_app_logs_listing_failure [OF cfg f] by (rule sync_apps_keeps)
    then show ?thesis by (simp add: sync_facebook_catalogs_def)
  qed
  from pass l u c d g ab lg show ?thesis by blast
qed

theorem sync_pass_continues_witness:
  "sync_facebook_catalogs flaky_env False [cloud_app, second_cloud_app] stale_state
     = (stale_state\<lparr>trace := flaky_trace\<rparr>, None)
   \<and> ListCall ''w2''
       \<in> set (trace (fst (sync_facebook_catalogs flaky_env False
                             [cloud_app, second_cloud_app] stale_state)))
   \<and> LogError ''Error on list all catalogs for App''
       \<in> set (trace (fst (sync_facebook_catalogs flaky_env False
                             [cloud_app, second_cloud_app] stale_state)))
   \<and> sync_facebook_catalogs details_down_env False [cloud_app, second_cloud_app] empty_state
       = sync_app details_down_env cloud_app empty_state
   \<and> snd (sync_app details_down_env cloud_app empty_state) = Some provider_error"
proof -
  have ok: "\<forall>cid e. get_catalog_details flaky_env cid \<noteq> Inl e"
    by (simp add: flaky_env_def details_ok_def)
  have c1: "is_configured cloud_app" and c2: "is_configured second_cloud_app"
    and u2: "app_uuid second_cloud_app = ''w2''"
    and m1: "cloud_app \<in> set [cloud_app, second_cloud_app]"
    and m2: "second_cloud_app \<in> set [cloud_app, second_cloud_app]"
    by code_simp+
  have lf: "list_all_catalogs flaky_env (config_get cloud_app ''wa_business_id'' PNone)
            = Inl provider_error" by code_simp
  have run: "sync_facebook_catalogs flaky_env False [cloud_app, second_cloud_app] stale_state
     = (stale_state\<lparr>trace := flaky_trace\<rparr>, None)" by code_simp
  note t = sync_pass_continues [of flaky_env "[cloud_app, second_cloud_app]" stale_state
             cloud_app provider_error _ _ _ _ _ _ cloud_app]
  from t ok m2 c2 u2
  have 2: "ListCall ''w2''
       \<in> set (trace (fst (sync_facebook_catalogs flaky_env False
                             [cloud_app, second_cloud_app] stale_state)))"
    by fastforce
  from t ok m1 c1 lf
  have 3: "LogError ''Error on list all catalogs for App''
       \<in> set (trace (fst (sync_facebook_catalogs flaky_env False
                             [cloud_app, second_cloud_app] stale_state)))"
    by blast
  have ld: "list_all_catalogs details_down_env (config_get cloud_app ''wa_business_id'' PNone)
            = Inr ([''101''], [PDict [(''id'', PStr ''101''), (''name'', PStr ''Store'')]])"
    and in1: "''101'' \<in> set [''101'']"
    and nl: "''101'' \<notin> set (local_catalog_ids cloud_app empty_state)"
    and df: "get_catalog_details details_down_env ''101'' = Inl provider_error"
    by code_simp+
  from sync_pass_continues [of details_down_env "[]" empty_state cloud_app provider_error
         "[PDict [(''id'', PStr ''101''), (''name'', PStr ''Store'')]]" _ _ "''101''"
         "[''101'']" "[second_cloud_app]"] c1 ld in1 nl df
  have 4: "sync_facebook_catalogs details_down_env False [cloud_app, second_cloud_app] empty_state
       = sync_app details_down_env cloud_app empty_state"
    by blast
  have 5: "snd (sync_app details_down_env cloud_app empty_state) = Some provider_error"
    by code_simp
  from run 2 3 4 5 show ?thesis by blast
qed

text \<open>
  C2 (as stated, refuted). For a configured connection whose remote listing is empty,
  the pass requests the listing and pushes nothing to the flows service.
\<close>

theorem empty_listing_not_pushed_counterexample:
  "is_configured cloud_app
   \<and> list_all_catalogs empty_listing_env (config_get cloud_app ''wa_business_id'' PNone) = Inr ([], [])
   \<and> trace (fst (sync_facebook_catalogs empty_listing_env False [cloud_app] empty_state))
       = [ListCall ''w1'']"
  by code_simp

text \<open>
  C2 (amended). For a connection with both identities configured whose remote listing
  is not empty, processing the connection pushes the full listing to the flows
  service, whatever the local catalogs are (also with no create/delete difference),
  and so does a pass that reaches the connection (no details failure before it); when
  the listing is empty, nothing is pushed and nothing else is done.
\<close>

theorem nonempty_listing_pushed:
  "(is_configured a
      \<and> list_all_catalogs env (config_get a ''wa_business_id'' PNone) = Inr (ids, cs) \<and> ids \<noteq> []
      \<longrightarrow> FlowsUpdate (py_str_uuid (flow_object_uuid a)) cs \<in> set (trace (fst (sync_app env a st))))
   \<and> ((\<forall>cid e. get_catalog_details env cid \<noteq> Inl e) \<and> a \<in> set as \<and> is_configured a
      \<and> list_all_catalogs env (config_get a ''wa_business_id'' PNone) = Inr (ids, cs) \<and> ids \<noteq> []
      \<longrightarrow> FlowsUpdate (py_str_uuid (flow_object_uuid a)) cs
            \<in> set (trace (fst (sync_facebook_catalogs env False as st))))
   \<and> (is_configured a
      \<and> list_all_catalogs env (config_get a ''wa_business_id'' PNone) = Inr ([], cs)
      \<longrightarrow> sync_app env a st = (emit (ListCall (app_uuid a)) st, None))"
proof -
  have one: "FlowsUpdate (py_str_uuid (flow_object_uuid a)) cs \<in> set (trace (fst (sync_app env a st')))"
    if "is_configured a"
      "list_all_catalogs env (config_get a ''wa_business_id'' PNone) = Inr (ids, cs)" "ids \<noteq> []"
    for st'
    using that by (rule sync_app_notifies)
  have pass: "FlowsUpdate (py_str_uuid (flow_object_uuid a)) cs
            \<in> set (trace (fst (sync_facebook_catalogs env False as st)))"
    if ok: "\<forall>cid e. get_catalog_details env cid \<noteq> Inl e" and mem: "a \<in> set as"
      and cfg: "is_configured a"
      and l: "list_all_catalogs env (config_get a ''wa_business_id'' PNone) = Inr (ids, cs)"
      and ne: "ids \<noteq> []"
  proof -
    have "FlowsUpdate (py_str_uuid (flow_object_uuid a)) cs \<in> set (trace (fst (sync_apps env as st)))"
      using ok mem one [OF cfg l ne] by (rule sync_apps_keeps)
    then show ?thesis by (simp add: sync_facebook_catalogs_def)
  qed
  have none: "sync_app env a st = (emit (ListCall (app_uuid a)) st, None)"
    if "is_configured a"
      "list_all_catalogs env (config_get a ''wa_business_id'' PNone) = Inr ([], cs)"
    using that by (simp add: sync_app_def is_configured_def list_all_catalogs_task_def Let_def)
  from one pass none show ?thesis by blast
qed

theorem nonempty_listing_pushed_witness:
  "FlowsUpdate ''fl1'' [PDict [(''id'', PStr ''101''), (''name'', PStr ''Store'')]]
     \<in> set (trace (fst (sync_app healthy_env cloud_app synced_state)))
   \<and> sdb (fst (sync_app healthy_env cloud_app synced_state)) = sdb synced_state"
proof -
  have cfg: "is_configured cloud_app" by code_simp
  have l: "list_all_catalogs healthy_env (config_get cloud_app ''wa_business_id'' PNone)
           = Inr ([''101''], [PDict [(''id'', PStr ''101''), (''name'', PStr ''Store'')]])"
    by code_simp
  have f: "py_str_uuid (flow_object_uuid cloud_app) = ''fl1''" by code_simp
  have same: "sdb (fst (sync_app healthy_env cloud_app synced_state)) = sdb synced_state"
    by code_simp
  from nonempty_listing_pushed [of cloud_app healthy_env "[''101'']"
         "[PDict [(''id'', PStr ''101''), (''name'', PStr ''Store'')]]" synced_state] cfg l f same
  show ?thesis by simp
qed

end
